theory Spec2Isabelle
  imports Main "HOL-Library.Extended_Nat" "HOL-Library.Code_Target_Nat"
begin

section \<open>Strings of the source language\<close>

text \<open>
  A JavaScript string is a sequence of UTF-16 code units. The plan-header pattern of the
  source names the en dash and the em dash, and its white-space class reaches beyond
  Latin-1, so a code unit is modelled as a natural number and a string as a list of them.
  \<open>str\<close> turns an ASCII literal of the theory into such a list.
\<close>

type_synonym jschar = nat
type_synonym jsstring = "nat list"

text \<open>
  The Numbers of the language are doubles. The only ones computed here are phase numbers,
  which \<open>parseInt\<close> gives for a run of decimal digits: doubles that are natural numbers,
  and Infinity. They are modelled as extended natural numbers, with \<open>\<infinity>\<close> for Infinity.
\<close>

type_synonym jsnumber = enat

definition str :: "string \<Rightarrow> jsstring" where
  "str s = map of_char s"

text \<open>
  The class \<open>\s\<close> of a regular expression, which is also what \<open>String.prototype.trim\<close>
  strips: the white-space code points and the line terminators.
\<close>

definition is_space :: "jschar \<Rightarrow> bool" where
  "is_space c \<longleftrightarrow>
     c = 9 \<or> c = 10 \<or> c = 11 \<or> c = 12 \<or> c = 13 \<or> c = 32 \<or> c = 160 \<or> c = 5760 \<or>
     (8192 \<le> c \<and> c \<le> 8202) \<or> c = 8232 \<or> c = 8233 \<or> c = 8239 \<or> c = 8287 \<or>
     c = 12288 \<or> c = 65279"

text \<open>The line terminators, which \<open>.\<close> does not match: LF, CR, U+2028, U+2029.\<close>

definition is_line_terminator :: "jschar \<Rightarrow> bool" where
  "is_line_terminator c \<longleftrightarrow> c = 10 \<or> c = 13 \<or> c = 8232 \<or> c = 8233"

definition is_digit :: "jschar \<Rightarrow> bool" where
  "is_digit c \<longleftrightarrow> 48 \<le> c \<and> c \<le> 57"

text \<open>
  Case folding of the flag \<open>i\<close> (without \<open>u\<close>): a code unit is compared through its
  upper-case form, except that a non-ASCII unit never folds to an ASCII one. Every pattern
  of the source is ASCII where it is literal, so a pattern character matches exactly its
  ASCII upper-case and lower-case forms; \<open>ascii_upper\<close> is that folding.
\<close>

definition ascii_upper :: "jschar \<Rightarrow> jschar" where
  "ascii_upper c = (if 97 \<le> c \<and> c \<le> 122 then c - 32 else c)"

definition ci_eq :: "jschar \<Rightarrow> jschar \<Rightarrow> bool" where
  "ci_eq p c \<longleftrightarrow> ascii_upper p = ascii_upper c"

text \<open>
  \<open>strip_ci p s\<close> matches the literal \<open>p\<close> at the start of \<open>s\<close>, ignoring case, and
  returns what follows it.
\<close>

fun strip_ci :: "jsstring \<Rightarrow> jsstring \<Rightarrow> jsstring option" where
  "strip_ci [] s = Some s"
| "strip_ci (p # ps) [] = None"
| "strip_ci (p # ps) (c # cs) = (if ci_eq p c then strip_ci ps cs else None)"

text \<open>
  An unanchored pattern is tried at every position from the left, the end of the string
  included; the first position where it matches wins.
\<close>

fun search :: "(jsstring \<Rightarrow> 'a option) \<Rightarrow> jsstring \<Rightarrow> 'a option" where
  "search m [] = m []"
| "search m (c # cs) = (case m (c # cs) of Some r \<Rightarrow> Some r | None \<Rightarrow> search m cs)"

definition trim :: "jsstring \<Rightarrow> jsstring" where
  "trim s = rev (dropWhile is_space (rev (dropWhile is_space s)))"

section \<open>The status machine (featureModel.ts)\<close>

datatype FeatureStatus =
    Requested | Draft | SpecReviewed | PlanCreated | PlanReviewed
  | ReadyForBuild | Building | CodeReview | Testing | Implemented

fun allowedTransitions :: "FeatureStatus \<Rightarrow> FeatureStatus list" where
  "allowedTransitions Requested = [Draft]"
| "allowedTransitions Draft = [SpecReviewed]"
| "allowedTransitions SpecReviewed = [PlanCreated]"
| "allowedTransitions PlanCreated = [PlanReviewed]"
| "allowedTransitions PlanReviewed = [ReadyForBuild]"
| "allowedTransitions ReadyForBuild = [Building]"
| "allowedTransitions Building = [CodeReview]"
| "allowedTransitions CodeReview = [Testing, Building]"
| "allowedTransitions Testing = [Implemented, Building]"
| "allowedTransitions Implemented = []"

text \<open>
  \<open>allowedTransitions[from]?.includes(to) ?? false\<close>: the table has an entry for every
  status, so the fallback to \<open>false\<close> is never taken on a typed argument.
\<close>

definition canTransition :: "FeatureStatus \<Rightarrow> FeatureStatus \<Rightarrow> bool" where
  "canTransition from to = List.member (allowedTransitions from) to"

section \<open>Features, the status file and the history log (workflowStatus.ts)\<close>

text \<open>
  A feature as the commands receive it: its identity and the paths of its files. An absent
  path and an empty one are both falsy in the source.
\<close>

record Feature =
  feat_id :: jsstring
  feat_name :: jsstring
  statusPath :: jsstring
  specPath :: jsstring
  specReviewPath :: "jsstring option"
  planPath :: "jsstring option"
  planReviewPath :: "jsstring option"
  requestPath :: "jsstring option"

definition falsy :: "jsstring option \<Rightarrow> bool" where
  "falsy p = (case p of None \<Rightarrow> True | Some s \<Rightarrow> s = [])"

text \<open>The source tag of a history line: system, user, claude, openai, claude-reviewer.\<close>

datatype Source = SrcSystem | SrcUser | SrcClaude | SrcOpenAI | SrcClaudeReviewer

datatype Artifact = Spec | Plan

datatype ReviewStatusText = MajorIssuesFound | MinorIssuesOnly | Approved

text \<open>
  The messages written to the history log. Each constructor is one message template of
  the source with the values it interpolates (phase numbers, iteration numbers, error
  texts); the rendering to text is left out.
\<close>

datatype HistMsg =
    CreatedFeature
  | MarkedSpecApproved | MarkedPlanApproved | MarkedReadyForBuild | StartedBuilding
  | MarkedImplemented | ManuallyAdvancedToCodeReview | BuildApproved | BuildRejected
  | StartingGeneration Artifact
  | GenerationFailed Artifact jsstring
  | GeneratedInitial Artifact
  | ReviewFailed "jsstring option"
  | ReviewIteration Artifact int bool
  | ReviewPassed Artifact
  | MaxIterationsReached
  | FailedToIncorporateReview jsstring
  | AddressedReviewFeedback int
  | GenerationComplete Artifact
  | StartingBuild nat
  | StartingPhase jsnumber jsstring
  | BuildFailedForPhase jsnumber "jsstring option"
  | BuilderCompletedPhase jsnumber
  | NoChangesDetected jsnumber
  | CodeReviewIteration int ReviewStatusText
  | CodeReviewFailed "jsstring option"
  | PhaseApproved jsnumber int
  | PhaseApprovedMinorLogged jsnumber int
  | MinorIssuesOnlyOneIteration int
  | MaxIterationsReachedForPhase int jsnumber
  | FailedToIncorporateFeedback "jsstring option"
  | BuilderAddressedFeedback int
  | BuildComplete nat

text \<open>
  The status file: the status of its frontmatter and the history lines of its body,
  newest first (the source prepends). The other frontmatter keys are copied unchanged by
  every write and are left out, as are the time stamps of the lines.
\<close>

record StatusFile =
  sf_status :: FeatureStatus
  sf_history :: "(Source \<times> HistMsg) list"

text \<open>Where a Claude Code process is started from.\<close>

datatype Site =
    GenerateSite Artifact
  | IncorporateSite Artifact
  | SpecReviewerSite
  | PlanReviewerSite
  | CodeReviewerSite
  | BuildSite
  | BuildIncorporateSite
  | AgentReviewerSite

text \<open>The notifications shown to the user.\<close>

datatype UiMsg =
    StatusCommandDone HistMsg
  | ClaudeNotInstalled
  | OpenAINotConfigured
  | GitNotAvailable
  | NoRequestFile
  | PathsNotConfigured Artifact
  | NoSpecFile
  | FailedToGenerate Artifact jsstring
  | ReviewFailedContinuing "jsstring option"
  | MaxReviewIterationsReached Artifact int
  | NoReviewContent
  | FailedToIncorporate jsstring
  | Generated Artifact
  | NoPlanFound
  | FailedToParsePlan
  | NoPhasesFound
  | BuildFailed jsnumber "jsstring option"
  | PhaseUnresolved jsnumber int
  | FailedToIncorporateFeedbackFor jsnumber "jsstring option"
  | BuildCompleteFor nat

text \<open>
  What the engine does to the outside, newest first: a Claude Code process started with a
  session id, fresh (\<open>--session-id\<close>, flag \<open>False\<close>) or resumed (\<open>--resume\<close>, flag
  \<open>True\<close>); a request to the OpenAI API; a run of the three git commands of
  \<open>getStagedDiff\<close>; a notification.
\<close>

datatype Event =
    RunClaude Site nat bool
  | OpenAIRequest
  | GitStagedDiff
  | ShowError UiMsg
  | ShowWarning UiMsg
  | ShowInformation UiMsg

text \<open>
  The state the engine acts on: the feature's status file, the supply of session ids and
  the record of what was done. \<open>crypto.randomUUID\<close> draws a random identifier; the
  model hands out a counter, so that an identifier is new by construction. Failures of the
  file system on the status file (which the source catches, reports and survives, leaving
  the file as it was) are outside the model: the file is taken to be readable and writable.
\<close>

record World =
  statusFile :: StatusFile
  nextUuid :: nat
  trace :: "Event list"

definition emit :: "Event \<Rightarrow> World \<Rightarrow> World" where
  "emit e w = w\<lparr>trace := e # trace w\<rparr>"

definition generateSessionId :: "World \<Rightarrow> nat \<times> World" where
  "generateSessionId w = (nextUuid w, w\<lparr>nextUuid := Suc (nextUuid w)\<rparr>)"

definition logToFeatureHistory :: "Source \<Rightarrow> HistMsg \<Rightarrow> World \<Rightarrow> World" where
  "logToFeatureHistory source message w =
     w\<lparr>statusFile := (statusFile w)\<lparr>sf_history := (source, message) # sf_history (statusFile w)\<rparr>\<rparr>"

definition updateFeatureStatus :: "FeatureStatus \<Rightarrow> Source \<Rightarrow> HistMsg \<Rightarrow> World \<Rightarrow> World" where
  "updateFeatureStatus newStatus source message w =
     w\<lparr>statusFile := \<lparr>sf_status = newStatus,
                         sf_history = (source, message) # sf_history (statusFile w)\<rparr>\<rparr>"

section \<open>The status commands (workflowCommands.ts)\<close>

text \<open>
  Each of these commands is one call of \<open>updateFeatureStatus\<close>, with the target status
  and the message of the command and the source user, followed by a notification.
  (\<open>runTests\<close>, which writes the status testing and then runs the test command, is
  left out.)
\<close>

definition statusCommand :: "FeatureStatus \<Rightarrow> HistMsg \<Rightarrow> World \<Rightarrow> World" where
  "statusCommand target message w =
     emit (ShowInformation (StatusCommandDone message))
       (updateFeatureStatus target SrcUser message w)"

definition markSpecApproved :: "Feature \<Rightarrow> World \<Rightarrow> World" where
  "markSpecApproved feature = statusCommand SpecReviewed MarkedSpecApproved"

definition markPlanApproved :: "Feature \<Rightarrow> World \<Rightarrow> World" where
  "markPlanApproved feature = statusCommand PlanReviewed MarkedPlanApproved"

definition markReadyForBuild :: "Feature \<Rightarrow> World \<Rightarrow> World" where
  "markReadyForBuild feature = statusCommand ReadyForBuild MarkedReadyForBuild"

definition markBuilding :: "Feature \<Rightarrow> World \<Rightarrow> World" where
  "markBuilding feature = statusCommand Building StartedBuilding"

definition markImplemented :: "Feature \<Rightarrow> World \<Rightarrow> World" where
  "markImplemented feature = statusCommand Implemented MarkedImplemented"

text \<open>\<open>runCodeReview\<close> of workflowCommands.ts, the manual move to code review.\<close>

definition runCodeReviewCommand :: "Feature \<Rightarrow> World \<Rightarrow> World" where
  "runCodeReviewCommand feature = statusCommand CodeReview ManuallyAdvancedToCodeReview"

definition approveBuild :: "Feature \<Rightarrow> World \<Rightarrow> World" where
  "approveBuild feature = statusCommand Implemented BuildApproved"

definition rejectBuild :: "Feature \<Rightarrow> World \<Rightarrow> World" where
  "rejectBuild feature = statusCommand Building BuildRejected"

text \<open>
  The world right after \<open>createNewFeature\<close>: status requested, one history line, and a
  feature with all its paths.
\<close>

definition newFeature :: Feature where
  "newFeature =
     \<lparr>feat_id = str ''f'', feat_name = str ''F'', statusPath = str ''f.status.md'',
      specPath = str ''f.spec.md'', specReviewPath = Some (str ''f.spec.review.md''),
      planPath = Some (str ''f.plan.md''), planReviewPath = Some (str ''f.plan.review.md''),
      requestPath = Some (str ''f.request.md'')\<rparr>"

definition worldAt :: "FeatureStatus \<Rightarrow> World" where
  "worldAt s =
     \<lparr>statusFile = \<lparr>sf_status = s, sf_history = [(SrcSystem, CreatedFeature)]\<rparr>,
      nextUuid = 0, trace = []\<rparr>"

section \<open>The verdict classifiers (buildLoop.ts, claudeReview.ts)\<close>

record Verdict =
  hasMajorIssues :: bool
  hasMinorIssues :: bool

text \<open>
  \<open>toUpperCase\<close> on the text a capture group returns. The groups of the patterns below
  capture ASCII letters only, where the folding is the ASCII one.
\<close>

definition toUpperCase :: "jsstring \<Rightarrow> jsstring" where
  "toUpperCase s = map ascii_upper s"

text \<open>
  \<open>/\*\*Action Required\*\*:\s*(NONE|MINOR|MAJOR)/i\<close> at one position; the result is the
  text of the group. \<open>\s*\<close> is greedy, and giving white space back cannot help, since no
  alternative starts with white space.
\<close>

definition actionRequiredAt :: "jsstring \<Rightarrow> jsstring option" where
  "actionRequiredAt s =
     (case strip_ci (str ''**Action Required**:'') s of
        None \<Rightarrow> None
      | Some r \<Rightarrow>
          (let r' = dropWhile is_space r in
           if strip_ci (str ''NONE'') r' \<noteq> None then Some (take 4 r')
           else if strip_ci (str ''MINOR'') r' \<noteq> None then Some (take 5 r')
           else if strip_ci (str ''MAJOR'') r' \<noteq> None then Some (take 5 r')
           else None))"

text \<open>\<open>/\*\*Builder Must Fix\*\*:\s*(YES|NO)/i\<close> at one position.\<close>

definition builderMustFixAt :: "jsstring \<Rightarrow> jsstring option" where
  "builderMustFixAt s =
     (case strip_ci (str ''**Builder Must Fix**:'') s of
        None \<Rightarrow> None
      | Some r \<Rightarrow>
          (let r' = dropWhile is_space r in
           if strip_ci (str ''YES'') r' \<noteq> None then Some (take 3 r')
           else if strip_ci (str ''NO'') r' \<noteq> None then Some (take 2 r')
           else None))"

text \<open>\<open>/\*\*Status:\s*<marker>\*\*/i\<close> at one position, for the three legacy markers.\<close>

definition statusMarkerAt :: "jsstring \<Rightarrow> jsstring \<Rightarrow> unit option" where
  "statusMarkerAt marker s =
     (case strip_ci (str ''**Status:'') s of
        None \<Rightarrow> None
      | Some r \<Rightarrow>
          (case strip_ci (marker @ str ''**'') (dropWhile is_space r) of
             None \<Rightarrow> None
           | Some _ \<Rightarrow> Some ()))"

definition statusMarkerTest :: "jsstring \<Rightarrow> jsstring \<Rightarrow> bool" where
  "statusMarkerTest marker s \<longleftrightarrow> search (statusMarkerAt marker) s \<noteq> None"

text \<open>\<open>parseReviewerVerdict\<close> of buildLoop.ts.\<close>

definition parseReviewerVerdict :: "jsstring \<Rightarrow> Verdict" where
  "parseReviewerVerdict reviewText =
     (case search actionRequiredAt reviewText of
        Some action \<Rightarrow>
          \<lparr>hasMajorIssues = (toUpperCase action = str ''MAJOR''),
           hasMinorIssues = (toUpperCase action = str ''MINOR'')\<rparr>
      | None \<Rightarrow>
          (case search builderMustFixAt reviewText of
             Some answer \<Rightarrow>
               if toUpperCase answer = str ''NO''
               then \<lparr>hasMajorIssues = False, hasMinorIssues = False\<rparr>
               else if statusMarkerTest (str ''No Major Issues'') reviewText
               then \<lparr>hasMajorIssues = False,
                     hasMinorIssues = statusMarkerTest (str ''Minor Issues Only'') reviewText\<rparr>
               else \<lparr>hasMajorIssues = False, hasMinorIssues = False\<rparr>
           | None \<Rightarrow>
               if statusMarkerTest (str ''No Major Issues'') reviewText
               then \<lparr>hasMajorIssues = False,
                     hasMinorIssues = statusMarkerTest (str ''Minor Issues Only'') reviewText\<rparr>
               else \<lparr>hasMajorIssues = False, hasMinorIssues = False\<rparr>))"

text \<open>\<open>parseVerdictBlock\<close> of claudeReview.ts.\<close>

definition legacyVerdict :: "jsstring \<Rightarrow> Verdict" where
  "legacyVerdict reviewText =
     (if statusMarkerTest (str ''Major Issues Found'') reviewText
      then \<lparr>hasMajorIssues = True, hasMinorIssues = False\<rparr>
      else if statusMarkerTest (str ''No Major Issues'') reviewText
      then \<lparr>hasMajorIssues = False,
            hasMinorIssues = statusMarkerTest (str ''Minor Issues Only'') reviewText\<rparr>
      else \<lparr>hasMajorIssues = False, hasMinorIssues = False\<rparr>)"

definition parseVerdictBlock :: "jsstring \<Rightarrow> Verdict" where
  "parseVerdictBlock reviewText =
     (case search actionRequiredAt reviewText of
        Some action \<Rightarrow>
          \<lparr>hasMajorIssues = (toUpperCase action = str ''MAJOR''),
           hasMinorIssues = (toUpperCase action = str ''MINOR'')\<rparr>
      | None \<Rightarrow>
          (case search builderMustFixAt reviewText of
             Some answer \<Rightarrow>
               if toUpperCase answer = str ''NO''
               then \<lparr>hasMajorIssues = False, hasMinorIssues = False\<rparr>
               else legacyVerdict reviewText
           | None \<Rightarrow> legacyVerdict reviewText))"

section \<open>The phase extractor (planParser.ts)\<close>

text \<open>
  A phase of a plan. \<open>number\<close> is the Number that \<open>parseInt\<close> gives for the header's
  digits (see \<open>toDouble\<close> below).
\<close>

record Phase =
  number :: jsnumber
  description :: jsstring
  content :: jsstring

text \<open>\<open>content.split("\n")\<close>: the empty string gives one empty line.\<close>

fun split_nl :: "jsstring \<Rightarrow> jsstring list" where
  "split_nl [] = [[]]"
| "split_nl (c # cs) =
     (if c = 10 then [] # split_nl cs
      else (case split_nl cs of [] \<Rightarrow> [[c]] | l # ls \<Rightarrow> (c # l) # ls))"

text \<open>\<open>lines.join("\n")\<close>.\<close>

fun join_nl :: "jsstring list \<Rightarrow> jsstring" where
  "join_nl [] = []"
| "join_nl [l] = l"
| "join_nl (l # ls) = l @ 10 # join_nl ls"

text \<open>The number of binary digits of a natural number.\<close>

fun bitLength :: "nat \<Rightarrow> nat" where
  "bitLength n = (if n = 0 then 0 else Suc (bitLength (n div 2)))"

declare bitLength.simps [simp del]

text \<open>
  The largest double is \<open>(2 ^ 53 - 1) * 2 ^ 971\<close>; a value that rounds to \<open>2 ^ 1024\<close>
  or beyond is no double any more.
\<close>

definition doubleLimit :: nat where
  "doubleLimit = 2 ^ 1024"

text \<open>
  The Number value of a natural number: the nearest double, a tie going to the even
  significand, and Infinity when the rounded value passes the largest double. A double
  has 53 significant bits, so a value below \<open>2 ^ 53\<close> is kept. A value of
  \<open>53 + s\<close> bits with \<open>s > 0\<close> keeps its 53 leading bits \<open>q\<close>; the \<open>s\<close> bits \<open>r\<close>
  that are cut off round \<open>q\<close> up when they are more than half a unit of \<open>q\<close>, or
  exactly half with \<open>q\<close> odd.
\<close>

definition toDouble :: "nat \<Rightarrow> jsnumber" where
  "toDouble n =
     (if n < 9007199254740992 then enat n
      else
        (let s = bitLength n - 53;
             q = n div 2 ^ s;
             r = n mod 2 ^ s;
             half = 2 ^ (s - 1);
             q' = (if r > half \<or> (r = half \<and> odd q) then q + 1 else q);
             v = q' * 2 ^ s
         in if v \<ge> doubleLimit then \<infinity> else enat v))"

text \<open>
  \<open>parseInt(digits, 10)\<close> on a non-empty run of decimal digits: the Number value of the
  integer that the digits write. (The language allows an engine to read the digits after
  the twentieth as zeros; V8, the engine of the extension host, rounds the exact integer,
  which is what the model does.)
\<close>

definition parseInt10 :: "jsstring \<Rightarrow> jsnumber" where
  "parseInt10 ds = toDouble (foldl (\<lambda>a c. 10 * a + (c - 48)) 0 ds)"

text \<open>The class \<open>[:.\-\<dots>]\<close> of separators: colon, full stop, hyphen, en dash, em dash.\<close>

definition is_separator :: "jschar \<Rightarrow> bool" where
  "is_separator c \<longleftrightarrow> c = 58 \<or> c = 46 \<or> c = 45 \<or> c = 8211 \<or> c = 8212"

text \<open>
  The end of the header pattern, \<open>\s*(.+)$\<close>, on what follows the separator. \<open>.\<close> takes
  no line terminator and \<open>$\<close> is the end of the line, so the group is a non-empty suffix
  without line terminators that only white space precedes. \<open>\s*\<close> is greedy: the group
  starts at the first character that is not white space when there is one; when there is
  none, the matcher gives the last white-space character back to the group.
\<close>

definition descriptionGroup :: "jsstring \<Rightarrow> jsstring option" where
  "descriptionGroup rest =
     (let r = dropWhile is_space rest in
      if r \<noteq> [] then (if list_ex is_line_terminator r then None else Some r)
      else if rest \<noteq> [] \<and> \<not> is_line_terminator (last rest) then Some [last rest]
      else None)"

text \<open>
  \<open>line.match(/^##\s*Phase\s+(\d+)\s*[:.\-\<dots>]\s*(.+)$/i)\<close>: the two groups of a header
  line. Each greedy run is followed by something outside its class, so no backtracking
  into the runs before the description can change the outcome.
\<close>

definition matchPhaseHeader :: "jsstring \<Rightarrow> (jsstring \<times> jsstring) option" where
  "matchPhaseHeader line =
     (case strip_ci (str ''##'') line of
        None \<Rightarrow> None
      | Some r1 \<Rightarrow>
          (case strip_ci (str ''Phase'') (dropWhile is_space r1) of
             None \<Rightarrow> None
           | Some r2 \<Rightarrow>
               if takeWhile is_space r2 = [] then None
               else
                 (let r3 = dropWhile is_space r2;
                      digits = takeWhile is_digit r3;
                      r4 = dropWhile is_digit r3
                  in if digits = [] then None
                     else
                       (case dropWhile is_space r4 of
                          [] \<Rightarrow> None
                        | c # r5 \<Rightarrow>
                            if is_separator c
                            then (case descriptionGroup r5 of
                                    None \<Rightarrow> None
                                  | Some d \<Rightarrow> Some (digits, d))
                            else None))))"

text \<open>Closing a phase: its accumulated lines, joined and trimmed, become its content.\<close>

definition closePhase :: "Phase option \<Rightarrow> jsstring list \<Rightarrow> Phase list \<Rightarrow> Phase list" where
  "closePhase currentPhase currentContent phases =
     (case currentPhase of
        None \<Rightarrow> phases
      | Some p \<Rightarrow> phases @ [p\<lparr>content := trim (join_nl currentContent)\<rparr>])"

text \<open>The loop over the lines, with the last phase closed at the end.\<close>

fun phaseLoop ::
  "jsstring list \<Rightarrow> Phase option \<Rightarrow> jsstring list \<Rightarrow> Phase list \<Rightarrow> Phase list" where
  "phaseLoop [] currentPhase currentContent phases =
     closePhase currentPhase currentContent phases"
| "phaseLoop (line # lines) currentPhase currentContent phases =
     (case matchPhaseHeader line of
        Some (digits, desc) \<Rightarrow>
          phaseLoop lines
            (Some \<lparr>number = parseInt10 digits, description = trim desc, content = []\<rparr>)
            [line]
            (closePhase currentPhase currentContent phases)
      | None \<Rightarrow>
          (case currentPhase of
             None \<Rightarrow> phaseLoop lines None currentContent phases
           | Some p \<Rightarrow> phaseLoop lines (Some p) (currentContent @ [line]) phases))"

text \<open>
  \<open>phases.sort((a, b) => a.number - b.number)\<close>. The difference of two Numbers is
  negative, zero or positive as the Numbers compare, except that the difference of two
  Infinities is NaN, which the sort reads as zero: equal again. The sort of the language
  is stable, as \<open>sort_key\<close> is.
\<close>

definition parsePlanPhasesFromContent :: "jsstring \<Rightarrow> Phase list" where
  "parsePlanPhasesFromContent planContent =
     sort_key number (phaseLoop (split_nl planContent) None [] [])"

subsection \<open>The extractor as the specification words it\<close>

text \<open>
  A header line opens a block that runs up to the next header line or the end; lines
  before the first header belong to no block.
\<close>

definition is_header :: "jsstring \<Rightarrow> bool" where
  "is_header l \<longleftrightarrow> matchPhaseHeader l \<noteq> None"

fun phaseBlocks :: "jsstring list \<Rightarrow> (jsstring \<times> jsstring list) list" where
  "phaseBlocks [] = []"
| "phaseBlocks (l # ls) =
     (if is_header l then (l, takeWhile (\<lambda>x. \<not> is_header x) ls) # phaseBlocks ls
      else phaseBlocks ls)"

text \<open>The text of a block, header line included, exactly as it stands in the plan.\<close>

definition blockText :: "jsstring \<times> jsstring list \<Rightarrow> jsstring" where
  "blockText b = join_nl (fst b # snd b)"

definition blockPhase :: "jsstring \<times> jsstring list \<Rightarrow> Phase" where
  "blockPhase b =
     (case matchPhaseHeader (fst b) of
        Some (digits, desc) \<Rightarrow>
          \<lparr>number = parseInt10 digits, description = trim desc, content = trim (blockText b)\<rparr>
      | None \<Rightarrow> \<lparr>number = 0, description = [], content = trim (blockText b)\<rparr>)"



definition roundedPlan :: jsstring where
  "roundedPlan =
     join_nl [str ''## Phase 9007199254740993: a'', str ''## Phase 9007199254740992: b'']"

section \<open>Settings and the outside world\<close>

datatype ReviewerProvider = ProviderOpenAI | ProviderClaude

datatype BuildReviewMode = OpenAIOnly | ArchitectOnly | Both

text \<open>What \<open>runClaudeCodeWithProgress\<close> returns (the session id is the one it was given).\<close>

record ClaudeCodeResult =
  cc_success :: bool
  cc_output :: jsstring
  cc_error :: "jsstring option"

text \<open>\<open>ReviewResult\<close> of the spec and plan reviews.\<close>

record ReviewResult =
  rr_success :: bool
  rr_hasMajorIssues :: bool
  rr_reviewContent :: jsstring
  rr_error :: "jsstring option"

text \<open>\<open>CodeReviewResult\<close> of the code reviews.\<close>

record CodeReviewResult =
  cr_success :: bool
  cr_hasMajorIssues :: bool
  cr_hasMinorIssues :: bool
  cr_reviewContent :: jsstring
  cr_error :: "jsstring option"

text \<open>What \<open>getStagedDiff\<close> returns.\<close>

record GitDiffResult =
  diff :: jsstring
  filesChanged :: "jsstring list"
  hasChanges :: bool

text \<open>
  Everything the engine reads from outside: the settings, the installation, and the
  outcome of each external call, given for the place in the control flow where the call is
  made (the iteration of a review loop; for the build, the position of the phase in the
  list and the iteration). A run reaches each of these places at most once, so whatever
  the outside world does in a run is such an assignment. A git command gives its standard output, or \<open>None\<close> when it
  cannot be spawned or exits with a nonzero code. The plan file is \<open>None\<close> when it cannot
  be read. \<open>lastAssistantText\<close> stands for the decoding of the JSON lines of a process's
  output: the text of the last assistant message, if there is one. The OpenAI functions
  are taken by what they return once the API key is there. Reads of the spec and the plan
  inside a review, and the write of the review file, are taken to succeed.
\<close>

record Env =
  claudeCodeInstalled :: bool
  openAIKeyConfigured :: bool
  workspaceFolderOpen :: bool
  gitAvailable :: bool
  reviewerProvider :: ReviewerProvider
  maxReviewIterations :: int
  maxBuildIterations :: int
  buildReviewMode :: BuildReviewMode
  lastAssistantText :: "jsstring \<Rightarrow> jsstring option"
  generationRun :: ClaudeCodeResult
  incorporationRun :: "int \<Rightarrow> ClaudeCodeResult"
  reviewerRun :: "int \<Rightarrow> ClaudeCodeResult"
  openAIReview :: "int \<Rightarrow> ReviewResult"
  planFile :: "jsstring option"
  buildRun :: "nat \<Rightarrow> ClaudeCodeResult"
  feedbackRun :: "nat \<Rightarrow> int \<Rightarrow> ClaudeCodeResult"
  gitAddAll :: "nat \<Rightarrow> int \<Rightarrow> jsstring option"
  gitDiffStaged :: "nat \<Rightarrow> int \<Rightarrow> jsstring option"
  gitDiffNameOnly :: "nat \<Rightarrow> int \<Rightarrow> jsstring option"
  openAICodeReview :: "nat \<Rightarrow> int \<Rightarrow> CodeReviewResult"
  codeReviewerRun :: "nat \<Rightarrow> int \<Rightarrow> ClaudeCodeResult"
  agentReviewerRun :: "nat \<Rightarrow> int \<Rightarrow> ClaudeCodeResult"

section \<open>Claude Code sessions (claudeCode.ts)\<close>

definition ensureClaudeCodeInstalled :: "Env \<Rightarrow> World \<Rightarrow> bool \<times> World" where
  "ensureClaudeCodeInstalled env w =
     (if claudeCodeInstalled env then (True, w)
      else (False, emit (ShowError ClaudeNotInstalled) w))"

text \<open>
  One call starts one process, on a fresh session or resuming one; the outcome is the one
  the outside world has for this call.
\<close>

definition runClaudeCodeWithProgress ::
  "Site \<Rightarrow> nat \<Rightarrow> bool \<Rightarrow> ClaudeCodeResult \<Rightarrow> World \<Rightarrow> ClaudeCodeResult \<times> World" where
  "runClaudeCodeWithProgress site sessionId isResume outcome w =
     (outcome, emit (RunClaude site sessionId isResume) w)"

text \<open>\<open>result.error || "Unknown error"\<close>.\<close>

definition errorOr :: "jsstring \<Rightarrow> jsstring option \<Rightarrow> jsstring" where
  "errorOr dflt e = (case e of None \<Rightarrow> dflt | Some s \<Rightarrow> if s = [] then dflt else s)"

section \<open>The review providers (openaiReview.ts, claudeReview.ts)\<close>

definition ensureOpenAIConfigured :: "Env \<Rightarrow> World \<Rightarrow> bool \<times> World" where
  "ensureOpenAIConfigured env w =
     (if openAIKeyConfigured env then (True, w)
      else (False, emit (ShowError OpenAINotConfigured) w))"

definition ensureReviewerConfigured :: "Env \<Rightarrow> ReviewerProvider \<Rightarrow> World \<Rightarrow> bool \<times> World" where
  "ensureReviewerConfigured env provider w =
     (if provider = ProviderClaude then ensureClaudeCodeInstalled env w
      else ensureOpenAIConfigured env w)"

definition getReviewerLogSource :: "ReviewerProvider \<Rightarrow> Source" where
  "getReviewerLogSource provider =
     (if provider = ProviderClaude then SrcClaudeReviewer else SrcOpenAI)"

definition openAIKeyMissing :: jsstring where
  "openAIKeyMissing =
     str (''OpenAI API key not configured. Set OPENAI_API_KEY environment variable ''
          @ ''or featureWorkflow.openaiApiKey setting.'')"

definition failedReview :: "jsstring \<Rightarrow> ReviewResult" where
  "failedReview e =
     \<lparr>rr_success = False, rr_hasMajorIssues = True, rr_reviewContent = [], rr_error = Some e\<rparr>"

text \<open>\<open>reviewSpec\<close> and \<open>reviewPlan\<close> of openaiReview.ts.\<close>

definition reviewWithOpenAI :: "Env \<Rightarrow> int \<Rightarrow> World \<Rightarrow> ReviewResult \<times> World" where
  "reviewWithOpenAI env iteration w =
     (if \<not> openAIKeyConfigured env
      then (failedReview openAIKeyMissing, w)
      else (openAIReview env iteration, emit OpenAIRequest w))"

text \<open>
  \<open>parseClaudeReviewOutput\<close>: the review text is the last assistant text of the output,
  or the raw output when there is none.
\<close>

definition reviewTextOf :: "Env \<Rightarrow> jsstring \<Rightarrow> jsstring" where
  "reviewTextOf env output =
     (case lastAssistantText env output of
        None \<Rightarrow> output
      | Some t \<Rightarrow> if t = [] then output else t)"

definition parseClaudeReviewOutput :: "Env \<Rightarrow> jsstring \<Rightarrow> Verdict \<times> jsstring" where
  "parseClaudeReviewOutput env output =
     (parseVerdictBlock (reviewTextOf env output), reviewTextOf env output)"

text \<open>
  \<open>reviewSpecWithClaude\<close> and \<open>reviewPlanWithClaude\<close>, which differ in their prompts: a
  session id is generated for the reviewer and the process is started fresh.
\<close>

definition reviewWithClaude :: "Env \<Rightarrow> Site \<Rightarrow> int \<Rightarrow> World \<Rightarrow> ReviewResult \<times> World" where
  "reviewWithClaude env site iteration w =
     (case ensureClaudeCodeInstalled env w of
        (installed, w1) \<Rightarrow>
          if \<not> installed then (failedReview (str ''Claude Code CLI is not installed''), w1)
          else if \<not> workspaceFolderOpen env
          then (failedReview (str ''No workspace folder open''), w1)
          else
            (case generateSessionId w1 of
               (reviewerSessionId, w2) \<Rightarrow>
                 (case runClaudeCodeWithProgress site reviewerSessionId False
                         (reviewerRun env iteration) w2 of
                    (result, w3) \<Rightarrow>
                      if \<not> cc_success result
                      then (failedReview
                              (errorOr (str ''Claude Code review failed'') (cc_error result)), w3)
                      else
                        (case parseClaudeReviewOutput env (cc_output result) of
                           (verdict, reviewText) \<Rightarrow>
                             (\<lparr>rr_success = True,
                               rr_hasMajorIssues = hasMajorIssues verdict,
                               rr_reviewContent = reviewText,
                               rr_error = None\<rparr>, w3)))))"

section \<open>The spec and plan loops (reviewLoop.ts)\<close>

definition reviewerSite :: "Artifact \<Rightarrow> Site" where
  "reviewerSite a = (case a of Spec \<Rightarrow> SpecReviewerSite | Plan \<Rightarrow> PlanReviewerSite)"

text \<open>\<open>reviewSpec\<close> and \<open>reviewPlan\<close> of reviewLoop.ts: the configured provider reviews.\<close>

definition reviewArtifact ::
  "Env \<Rightarrow> Artifact \<Rightarrow> ReviewerProvider \<Rightarrow> int \<Rightarrow> World \<Rightarrow> ReviewResult \<times> World" where
  "reviewArtifact env a provider iteration w =
     (if provider = ProviderClaude then reviewWithClaude env (reviewerSite a) iteration w
      else reviewWithOpenAI env iteration w)"

datatype LoopStep = Break | Continue

text \<open>
  The body of the review loop, which the source writes out once for the spec and once for
  the plan, with the same steps and the artifact's name in the messages.
\<close>

definition reviewIteration ::
  "Env \<Rightarrow> Artifact \<Rightarrow> ReviewerProvider \<Rightarrow> nat \<Rightarrow> int \<Rightarrow> World \<Rightarrow> LoopStep \<times> World" where
  "reviewIteration env a provider sessionId iteration w =
     (case reviewArtifact env a provider iteration w of
        (reviewResult, w1) \<Rightarrow>
          if \<not> rr_success reviewResult
          then (Break,
                logToFeatureHistory SrcSystem (ReviewFailed (rr_error reviewResult))
                  (emit (ShowWarning (ReviewFailedContinuing (rr_error reviewResult))) w1))
          else
            (let w2 = logToFeatureHistory (getReviewerLogSource provider)
                        (ReviewIteration a iteration (rr_hasMajorIssues reviewResult)) w1
             in if \<not> rr_hasMajorIssues reviewResult
                then (Break, logToFeatureHistory SrcSystem (ReviewPassed a) w2)
                else if iteration \<ge> maxReviewIterations env
                then (Break,
                      logToFeatureHistory SrcSystem MaxIterationsReached
                        (emit (ShowWarning
                                 (MaxReviewIterationsReached a (maxReviewIterations env))) w2))
                else if rr_reviewContent reviewResult = []
                then (Break, emit (ShowWarning NoReviewContent) w2)
                else
                  (case runClaudeCodeWithProgress (IncorporateSite a) sessionId True
                          (incorporationRun env iteration) w2 of
                     (result, w3) \<Rightarrow>
                       if \<not> cc_success result
                       then (Break,
                             logToFeatureHistory SrcSystem
                               (FailedToIncorporateReview
                                  (errorOr (str ''Unknown error'') (cc_error result)))
                               (emit (ShowError
                                        (FailedToIncorporate
                                           (errorOr (str ''Unknown error'') (cc_error result))))
                                  w3))
                       else (Continue,
                             logToFeatureHistory SrcClaude
                               (AddressedReviewFeedback (iteration + 1)) w3))))"

text \<open>\<open>for (let iteration = 1; iteration <= config.maxIterations; iteration++)\<close>.\<close>

function reviewIterations ::
  "Env \<Rightarrow> Artifact \<Rightarrow> ReviewerProvider \<Rightarrow> nat \<Rightarrow> int \<Rightarrow> World \<Rightarrow> World" where
  "reviewIterations env a provider sessionId iteration w =
     (if iteration \<le> maxReviewIterations env
      then (case reviewIteration env a provider sessionId iteration w of
              (Break, w') \<Rightarrow> w'
            | (Continue, w') \<Rightarrow> reviewIterations env a provider sessionId (iteration + 1) w')
      else w)"
  by pat_completeness auto
termination
  by (relation "measure (\<lambda>(env, a, provider, sessionId, iteration, w).
                  nat (maxReviewIterations env + 1 - iteration))") auto

declare reviewIterations.simps [simp del]

text \<open>
  What follows the pre-flight checks in both functions: the first generation on a fresh
  session, the review loop, the status write.
\<close>

definition generateAndReview ::
  "Env \<Rightarrow> Artifact \<Rightarrow> ReviewerProvider \<Rightarrow> FeatureStatus \<Rightarrow> World \<Rightarrow> bool \<times> World" where
  "generateAndReview env a provider target w =
     (let w0 = logToFeatureHistory SrcSystem (StartingGeneration a) w in
      case generateSessionId w0 of
        (sessionId, w1) \<Rightarrow>
          (case runClaudeCodeWithProgress (GenerateSite a) sessionId False
                  (generationRun env) w1 of
             (result, w2) \<Rightarrow>
               if \<not> cc_success result
               then (False,
                     logToFeatureHistory SrcSystem
                       (GenerationFailed a (errorOr (str ''Unknown error'') (cc_error result)))
                       (emit (ShowError
                                (FailedToGenerate a
                                   (errorOr (str ''Unknown error'') (cc_error result)))) w2))
               else
                 (let w3 = logToFeatureHistory SrcClaude (GeneratedInitial a) w2;
                      w4 = reviewIterations env a provider sessionId 1 w3;
                      w5 = updateFeatureStatus target SrcSystem (GenerationComplete a) w4
                  in (True, emit (ShowInformation (Generated a)) w5))))"

definition generateSpecWithReviewLoop :: "Env \<Rightarrow> Feature \<Rightarrow> World \<Rightarrow> bool \<times> World" where
  "generateSpecWithReviewLoop env feature w =
     (case ensureClaudeCodeInstalled env w of
        (installed, w1) \<Rightarrow>
          if \<not> installed then (False, w1)
          else
            (case ensureReviewerConfigured env (reviewerProvider env) w1 of
               (configured, w2) \<Rightarrow>
                 if \<not> configured then (False, w2)
                 else if falsy (requestPath feature)
                 then (False, emit (ShowError NoRequestFile) w2)
                 else if specPath feature = [] \<or> falsy (specReviewPath feature)
                 then (False, emit (ShowError (PathsNotConfigured Spec)) w2)
                 else generateAndReview env Spec (reviewerProvider env) Draft w2))"

definition generatePlanWithReviewLoop :: "Env \<Rightarrow> Feature \<Rightarrow> World \<Rightarrow> bool \<times> World" where
  "generatePlanWithReviewLoop env feature w =
     (case ensureClaudeCodeInstalled env w of
        (installed, w1) \<Rightarrow>
          if \<not> installed then (False, w1)
          else
            (case ensureReviewerConfigured env (reviewerProvider env) w1 of
               (configured, w2) \<Rightarrow>
                 if \<not> configured then (False, w2)
                 else if specPath feature = []
                 then (False, emit (ShowError NoSpecFile) w2)
                 else if falsy (planPath feature) \<or> falsy (planReviewPath feature)
                 then (False, emit (ShowError (PathsNotConfigured Plan)) w2)
                 else generateAndReview env Plan (reviewerProvider env) PlanCreated w2))"

section \<open>Staged changes (gitUtils.ts)\<close>

definition noChanges :: GitDiffResult where
  "noChanges = \<lparr>diff = [], filesChanged = [], hasChanges = False\<rparr>"

text \<open>
  \<open>getStagedDiff\<close>: \<open>git add -A\<close>, \<open>git diff --staged\<close>, \<open>git diff --staged --name-only\<close>,
  inside one \<open>try\<close>; a command that fails throws, and the \<open>catch\<close> answers that nothing
  has changed.
\<close>

definition getStagedDiff :: "Env \<Rightarrow> nat \<Rightarrow> int \<Rightarrow> World \<Rightarrow> GitDiffResult \<times> World" where
  "getStagedDiff env k iteration w =
     ((case gitAddAll env k iteration of
         None \<Rightarrow> noChanges
       | Some _ \<Rightarrow>
           (case gitDiffStaged env k iteration of
              None \<Rightarrow> noChanges
            | Some d \<Rightarrow>
                (case gitDiffNameOnly env k iteration of
                   None \<Rightarrow> noChanges
                 | Some filesOutput \<Rightarrow>
                     \<lparr>diff = trim d,
                      filesChanged = filter (\<lambda>l. l \<noteq> []) (split_nl (trim filesOutput)),
                      hasChanges = (trim d \<noteq> [])\<rparr>))),
      emit GitStagedDiff w)"

section \<open>Code reviews (codeReview.ts, claudeReview.ts, buildLoop.ts)\<close>

definition failedCodeReview :: "jsstring option \<Rightarrow> CodeReviewResult" where
  "failedCodeReview e =
     \<lparr>cr_success = False, cr_hasMajorIssues = True, cr_hasMinorIssues = False,
      cr_reviewContent = [], cr_error = e\<rparr>"

definition reviewCodeWithOpenAI ::
  "Env \<Rightarrow> jsstring \<Rightarrow> nat \<Rightarrow> int \<Rightarrow> World \<Rightarrow> CodeReviewResult \<times> World" where
  "reviewCodeWithOpenAI env gitDiff k iteration w =
     (if \<not> openAIKeyConfigured env
      then (failedCodeReview (Some openAIKeyMissing), w)
      else if trim gitDiff = []
      then (failedCodeReview (Some (str ''No code changes to review'')), w)
      else (openAICodeReview env k iteration, emit OpenAIRequest w))"

text \<open>\<open>reviewCodeWithClaude\<close>: again a session id of its own and a fresh process.\<close>

definition reviewCodeWithClaude ::
  "Env \<Rightarrow> jsstring \<Rightarrow> nat \<Rightarrow> int \<Rightarrow> World \<Rightarrow> CodeReviewResult \<times> World" where
  "reviewCodeWithClaude env gitDiff k iteration w =
     (case ensureClaudeCodeInstalled env w of
        (installed, w1) \<Rightarrow>
          if \<not> installed
          then (failedCodeReview (Some (str ''Claude Code CLI is not installed'')), w1)
          else if \<not> workspaceFolderOpen env
          then (failedCodeReview (Some (str ''No workspace folder open'')), w1)
          else if trim gitDiff = []
          then (failedCodeReview (Some (str ''No code changes to review'')), w1)
          else
            (case generateSessionId w1 of
               (reviewerSessionId, w2) \<Rightarrow>
                 (case runClaudeCodeWithProgress CodeReviewerSite reviewerSessionId False
                         (codeReviewerRun env k iteration) w2 of
                    (result, w3) \<Rightarrow>
                      if \<not> cc_success result
                      then (failedCodeReview
                              (Some (errorOr (str ''Claude Code review failed'')
                                       (cc_error result))), w3)
                      else
                        (case parseClaudeReviewOutput env (cc_output result) of
                           (verdict, reviewText) \<Rightarrow>
                             (\<lparr>cr_success = True,
                               cr_hasMajorIssues = hasMajorIssues verdict,
                               cr_hasMinorIssues = hasMinorIssues verdict,
                               cr_reviewContent = reviewText,
                               cr_error = None\<rparr>, w3)))))"

definition reviewCode ::
  "Env \<Rightarrow> jsstring \<Rightarrow> nat \<Rightarrow> int \<Rightarrow> ReviewerProvider \<Rightarrow> World \<Rightarrow> CodeReviewResult \<times> World"
  where
  "reviewCode env gitDiff k iteration provider w =
     (if provider = ProviderClaude then reviewCodeWithClaude env gitDiff k iteration w
      else reviewCodeWithOpenAI env gitDiff k iteration w)"

text \<open>The merge of the two reviews; an absent second review counts as no issue.\<close>

definition hasAnyMajorIssues :: "CodeReviewResult \<Rightarrow> CodeReviewResult option \<Rightarrow> bool" where
  "hasAnyMajorIssues primaryReview architectReview \<longleftrightarrow>
     cr_hasMajorIssues primaryReview
     \<or> (case architectReview of None \<Rightarrow> False | Some r \<Rightarrow> cr_hasMajorIssues r)"

definition hasOnlyMinorIssues :: "CodeReviewResult \<Rightarrow> CodeReviewResult option \<Rightarrow> bool" where
  "hasOnlyMinorIssues primaryReview architectReview \<longleftrightarrow>
     (if hasAnyMajorIssues primaryReview architectReview then False
      else cr_hasMinorIssues primaryReview
           \<or> (case architectReview of None \<Rightarrow> False | Some r \<Rightarrow> cr_hasMinorIssues r))"

text \<open>\<open>extractIntentSummary\<close>: the last assistant text of an output, or a fixed remark.\<close>

definition extractIntentSummary :: "Env \<Rightarrow> jsstring \<Rightarrow> jsstring" where
  "extractIntentSummary env claudeOutput =
     (case lastAssistantText env claudeOutput of
        None \<Rightarrow> str ''(No summary extracted from BUILDER output)''
      | Some t \<Rightarrow> if t = [] then str ''(No summary extracted from BUILDER output)'' else t)"

text \<open>
  \<open>runCodeReview\<close> of buildLoop.ts: the REVIEWER of the build runs on the session id it is
  given and resumes it unless this is the first review.
\<close>

definition runCodeReview ::
  "Env \<Rightarrow> nat \<Rightarrow> int \<Rightarrow> nat \<Rightarrow> bool \<Rightarrow> World \<Rightarrow> CodeReviewResult \<times> World" where
  "runCodeReview env k iteration reviewerSessionId isFirstReview w =
     (case runClaudeCodeWithProgress AgentReviewerSite reviewerSessionId (\<not> isFirstReview)
             (agentReviewerRun env k iteration) w of
        (result, w1) \<Rightarrow>
          if \<not> cc_success result then (failedCodeReview (cc_error result), w1)
          else
            (let reviewText = extractIntentSummary env (cc_output result);
                 verdict = parseReviewerVerdict reviewText
             in (\<lparr>cr_success = True,
                  cr_hasMajorIssues = hasMajorIssues verdict,
                  cr_hasMinorIssues = hasMinorIssues verdict,
                  cr_reviewContent = reviewText,
                  cr_error = None\<rparr>, w1)))"

section \<open>The build loop (buildLoop.ts)\<close>

text \<open>
  The variables of \<open>executeBuildPhase\<close> that change while it runs, beside the world:
  \<open>isFirstReviewerCheck\<close>, set once for the whole build, and \<open>minorIssuesIteration\<close>, set
  anew for each phase. (\<open>buildResult\<close> only feeds the text of prompts, which are not
  modelled.)
\<close>

record BuildState =
  world :: World
  isFirstReviewerCheck :: bool
  minorIssuesIteration :: bool

definition reviewStatusText :: "CodeReviewResult \<Rightarrow> ReviewStatusText" where
  "reviewStatusText r =
     (if cr_hasMajorIssues r then MajorIssuesFound
      else if cr_hasMinorIssues r then MinorIssuesOnly
      else Approved)"

definition logCodeReview :: "Source \<Rightarrow> int \<Rightarrow> CodeReviewResult \<Rightarrow> World \<Rightarrow> World" where
  "logCodeReview source iteration r w =
     (if cr_success r
      then logToFeatureHistory source (CodeReviewIteration iteration (reviewStatusText r)) w
      else logToFeatureHistory source (CodeReviewFailed (cr_error r)) w)"

text \<open>The primary review of an iteration, skipped in the mode architect-only.\<close>

definition primaryReviewStep ::
  "Env \<Rightarrow> jsstring \<Rightarrow> nat \<Rightarrow> int \<Rightarrow> World \<Rightarrow> CodeReviewResult \<times> World" where
  "primaryReviewStep env gitDiff k iteration w =
     (if buildReviewMode env \<noteq> ArchitectOnly
      then (case reviewCode env gitDiff k iteration (reviewerProvider env) w of
              (primaryReview, w1) \<Rightarrow>
                (primaryReview,
                 logCodeReview (getReviewerLogSource (reviewerProvider env)) iteration
                   primaryReview w1))
      else (\<lparr>cr_success = False, cr_hasMajorIssues = False, cr_hasMinorIssues = False,
             cr_reviewContent = [], cr_error = None\<rparr>, w))"

text \<open>The review by the REVIEWER session of the build, skipped in the mode openai-only.\<close>

definition claudeReviewStep ::
  "Env \<Rightarrow> nat \<Rightarrow> int \<Rightarrow> nat \<Rightarrow> BuildState \<Rightarrow> CodeReviewResult option \<times> BuildState" where
  "claudeReviewStep env k iteration reviewerSessionId st =
     (if buildReviewMode env \<noteq> OpenAIOnly
      then (case runCodeReview env k iteration reviewerSessionId (isFirstReviewerCheck st)
                   (world st) of
              (claudeReview, w1) \<Rightarrow>
                (Some claudeReview,
                 st\<lparr>world := logCodeReview SrcClaudeReviewer iteration claudeReview w1,
                    isFirstReviewerCheck := False\<rparr>))
      else (None, st))"

datatype BuildStep = BreakLoop | ContinueLoop | ReturnFalse

text \<open>
  The end of an iteration, once both reviews are in: approval, the one remediation that
  minor issues get, the bound, or the hand-over of the feedback to the BUILDER session.
\<close>

definition afterReviews ::
  "Env \<Rightarrow> nat \<Rightarrow> nat \<Rightarrow> Phase \<Rightarrow> int \<Rightarrow> CodeReviewResult \<Rightarrow> CodeReviewResult option
     \<Rightarrow> BuildState \<Rightarrow> BuildStep \<times> BuildState" where
  "afterReviews env builderSessionId k phase iteration primaryReview claudeReview st =
     (let hasMajor = hasAnyMajorIssues primaryReview claudeReview;
          hasOnlyMinor = hasOnlyMinorIssues primaryReview claudeReview
      in if \<not> hasMajor \<and> \<not> hasOnlyMinor
         then (BreakLoop,
               st\<lparr>world := logToFeatureHistory SrcSystem
                              (PhaseApproved (number phase) iteration) (world st)\<rparr>)
         else if \<not> hasMajor \<and> hasOnlyMinor \<and> minorIssuesIteration st
         then (BreakLoop,
               st\<lparr>world := logToFeatureHistory SrcSystem
                              (PhaseApprovedMinorLogged (number phase) iteration) (world st)\<rparr>)
         else
           (let st1 = (if \<not> hasMajor \<and> hasOnlyMinor
                       then st\<lparr>world := logToFeatureHistory SrcSystem
                                          (MinorIssuesOnlyOneIteration iteration) (world st),
                               minorIssuesIteration := True\<rparr>
                       else st)
            in if iteration \<ge> maxBuildIterations env
               then (BreakLoop,
                     st1\<lparr>world :=
                            emit (ShowWarning
                                    (PhaseUnresolved (number phase) (maxBuildIterations env)))
                              (logToFeatureHistory SrcSystem
                                 (MaxIterationsReachedForPhase (maxBuildIterations env)
                                    (number phase)) (world st1))\<rparr>)
               else
                 (case runClaudeCodeWithProgress BuildIncorporateSite builderSessionId True
                         (feedbackRun env k iteration) (world st1) of
                    (buildResult, w1) \<Rightarrow>
                      if \<not> cc_success buildResult
                      then (ReturnFalse,
                            st1\<lparr>world :=
                                   emit (ShowError
                                           (FailedToIncorporateFeedbackFor (number phase)
                                              (cc_error buildResult)))
                                     (logToFeatureHistory SrcClaude
                                        (FailedToIncorporateFeedback (cc_error buildResult))
                                        w1)\<rparr>)
                      else (ContinueLoop,
                            st1\<lparr>world := logToFeatureHistory SrcClaude
                                            (BuilderAddressedFeedback (iteration + 1)) w1\<rparr>))))"

text \<open>One iteration of the review loop of a phase.\<close>

definition buildIteration ::
  "Env \<Rightarrow> nat \<Rightarrow> nat \<Rightarrow> nat \<Rightarrow> Phase \<Rightarrow> int \<Rightarrow> BuildState \<Rightarrow> BuildStep \<times> BuildState" where
  "buildIteration env builderSessionId reviewerSessionId k phase iteration st =
     (case getStagedDiff env k iteration (world st) of
        (diffResult, w1) \<Rightarrow>
          if \<not> hasChanges diffResult
          then (BreakLoop,
                st\<lparr>world := logToFeatureHistory SrcSystem (NoChangesDetected (number phase)) w1\<rparr>)
          else
            (case primaryReviewStep env (diff diffResult) k iteration w1 of
               (primaryReview, w2) \<Rightarrow>
                 (case claudeReviewStep env k iteration reviewerSessionId (st\<lparr>world := w2\<rparr>) of
                    (claudeReview, st3) \<Rightarrow>
                      afterReviews env builderSessionId k phase iteration
                        primaryReview claudeReview st3)))"

text \<open>
  \<open>for (let iteration = 1; iteration <= config.maxBuildIterations; iteration++)\<close>; the
  result says whether the build goes on (\<open>True\<close>) or the function has returned false.
\<close>

function phaseReviewLoop ::
  "Env \<Rightarrow> nat \<Rightarrow> nat \<Rightarrow> nat \<Rightarrow> Phase \<Rightarrow> int \<Rightarrow> BuildState \<Rightarrow> bool \<times> BuildState" where
  "phaseReviewLoop env builderSessionId reviewerSessionId k phase iteration st =
     (if iteration \<le> maxBuildIterations env
      then (case buildIteration env builderSessionId reviewerSessionId k phase iteration st of
              (BreakLoop, st') \<Rightarrow> (True, st')
            | (ReturnFalse, st') \<Rightarrow> (False, st')
            | (ContinueLoop, st') \<Rightarrow>
                phaseReviewLoop env builderSessionId reviewerSessionId k phase
                  (iteration + 1) st')
      else (True, st))"
  by pat_completeness auto
termination
  by (relation "measure (\<lambda>(env, b, r, k, phase, iteration, st).
                  nat (maxBuildIterations env + 1 - iteration))") auto

declare phaseReviewLoop.simps [simp del]

text \<open>
  \<open>for (const phase of phases)\<close>, with \<open>k\<close> the position of the phase in the list: the
  BUILDER implements the phase on its session, resumed when the phase number is above 1,
  then the review loop runs.
\<close>

fun buildPhases ::
  "Env \<Rightarrow> nat \<Rightarrow> nat \<Rightarrow> nat \<Rightarrow> Phase list \<Rightarrow> bool \<Rightarrow> World \<Rightarrow> bool \<times> bool \<times> World" where
  "buildPhases env builderSessionId reviewerSessionId k [] isFirst w = (True, isFirst, w)"
| "buildPhases env builderSessionId reviewerSessionId k (phase # phases) isFirst w =
     (let w0 = logToFeatureHistory SrcSystem
                 (StartingPhase (number phase) (description phase)) w in
      case runClaudeCodeWithProgress BuildSite builderSessionId (number phase > 1)
             (buildRun env k) w0 of
        (buildResult, w1) \<Rightarrow>
          if \<not> cc_success buildResult
          then (False, isFirst,
                emit (ShowError (BuildFailed (number phase) (cc_error buildResult)))
                  (logToFeatureHistory SrcClaude
                     (BuildFailedForPhase (number phase) (cc_error buildResult)) w1))
          else
            (case phaseReviewLoop env builderSessionId reviewerSessionId k phase 1
                    \<lparr>world = logToFeatureHistory SrcClaude
                               (BuilderCompletedPhase (number phase)) w1,
                     isFirstReviewerCheck = isFirst,
                     minorIssuesIteration = False\<rparr> of
               (goOn, st) \<Rightarrow>
                 if \<not> goOn then (False, isFirstReviewerCheck st, world st)
                 else buildPhases env builderSessionId reviewerSessionId (Suc k) phases
                        (isFirstReviewerCheck st) (world st)))"

text \<open>What follows the pre-flight checks and the parse of the plan.\<close>

definition buildAll :: "Env \<Rightarrow> Phase list \<Rightarrow> World \<Rightarrow> bool \<times> World" where
  "buildAll env phases w =
     (let w0 = updateFeatureStatus Building SrcSystem (StartingBuild (length phases)) w in
      case generateSessionId w0 of
        (builderSessionId, w1) \<Rightarrow>
          (case generateSessionId w1 of
             (reviewerSessionId, w2) \<Rightarrow>
               (case buildPhases env builderSessionId reviewerSessionId 0 phases True w2 of
                  (completed, isFirst, w3) \<Rightarrow>
                    if \<not> completed then (False, w3)
                    else (True,
                          emit (ShowInformation (BuildCompleteFor (length phases)))
                            (updateFeatureStatus CodeReview SrcSystem
                               (BuildComplete (length phases)) w3)))))"

definition executeBuildPhase :: "Env \<Rightarrow> Feature \<Rightarrow> World \<Rightarrow> bool \<times> World" where
  "executeBuildPhase env feature w =
     (case ensureClaudeCodeInstalled env w of
        (installed, w1) \<Rightarrow>
          if \<not> installed then (False, w1)
          else
            (case (if buildReviewMode env \<noteq> ArchitectOnly
                   then ensureReviewerConfigured env (reviewerProvider env) w1
                   else (True, w1)) of
               (configured, w2) \<Rightarrow>
                 if \<not> configured then (False, w2)
                 else if \<not> gitAvailable env
                 then (False, emit (ShowError GitNotAvailable) w2)
                 else if falsy (planPath feature)
                 then (False, emit (ShowError NoPlanFound) w2)
                 else
                   (case planFile env of
                      None \<Rightarrow> (False, emit (ShowError FailedToParsePlan) w2)
                    | Some planContent \<Rightarrow>
                        (let phases = parsePlanPhasesFromContent planContent in
                         if phases = []
                         then (False, emit (ShowWarning NoPhasesFound) w2)
                         else buildAll env phases w2))))"

section \<open>Observations on a run\<close>

text \<open>
  The calls that ask for a review (a request to OpenAI, or a Claude Code process started
  as a reviewer) and the calls that hand a review back to the generating session.
\<close>

fun isReviewCall :: "Event \<Rightarrow> bool" where
  "isReviewCall OpenAIRequest = True"
| "isReviewCall (RunClaude SpecReviewerSite sid r) = True"
| "isReviewCall (RunClaude PlanReviewerSite sid r) = True"
| "isReviewCall (RunClaude CodeReviewerSite sid r) = True"
| "isReviewCall (RunClaude AgentReviewerSite sid r) = True"
| "isReviewCall e = False"

fun isIncorporation :: "Event \<Rightarrow> bool" where
  "isIncorporation (RunClaude (IncorporateSite a) sid r) = True"
| "isIncorporation (RunClaude BuildIncorporateSite sid r) = True"
| "isIncorporation e = False"

definition reviewCalls :: "World \<Rightarrow> nat" where
  "reviewCalls w = length (filter isReviewCall (trace w))"

definition incorporationCalls :: "World \<Rightarrow> nat" where
  "incorporationCalls w = length (filter isIncorporation (trace w))"

definition warnings :: "UiMsg \<Rightarrow> World \<Rightarrow> nat" where
  "warnings m w = count_list (trace w) (ShowWarning m)"

definition logged :: "Source \<Rightarrow> HistMsg \<Rightarrow> World \<Rightarrow> nat" where
  "logged s m w = count_list (sf_history (statusFile w)) (s, m)"

text \<open>
  The entries of the history that record the approval of a phase ("approved after n
  iteration(s)", with or without "minor issues logged for human review"), and the entries
  that record that minor issues were given their iteration ("Minor issues only - one
  iteration to address").
\<close>

fun isPhaseApproval :: "Source \<times> HistMsg \<Rightarrow> bool" where
  "isPhaseApproval (s, PhaseApproved n i) = True"
| "isPhaseApproval (s, PhaseApprovedMinorLogged n i) = True"
| "isPhaseApproval e = False"

definition phaseApprovals :: "World \<Rightarrow> nat" where
  "phaseApprovals w = length (filter isPhaseApproval (sf_history (statusFile w)))"

fun isMinorRemediation :: "Source \<times> HistMsg \<Rightarrow> bool" where
  "isMinorRemediation (s, MinorIssuesOnlyOneIteration i) = True"
| "isMinorRemediation e = False"

definition minorRemediations :: "World \<Rightarrow> nat" where
  "minorRemediations w = length (filter isMinorRemediation (sf_history (statusFile w)))"

text \<open>What is left of the one iteration that the minor issues of a phase may get.\<close>

definition minorBudget :: "BuildState \<Rightarrow> nat" where
  "minorBudget st = (if minorIssuesIteration st then 0 else 1)"

text \<open>Every review of the configured provider succeeds and reports major issues.\<close>

definition alwaysMajor :: "Env \<Rightarrow> Artifact \<Rightarrow> ReviewerProvider \<Rightarrow> bool" where
  "alwaysMajor env a p \<longleftrightarrow>
     (\<forall>i w. rr_success (fst (reviewArtifact env a p i w))
          \<and> rr_hasMajorIssues (fst (reviewArtifact env a p i w))
          \<and> rr_reviewContent (fst (reviewArtifact env a p i w)) \<noteq> [])"

text \<open>An outside world in which every review reports major issues, for evaluation.\<close>

definition okRun :: ClaudeCodeResult where
  "okRun = \<lparr>cc_success = True, cc_output = str ''done'', cc_error = None\<rparr>"

definition failedRun :: ClaudeCodeResult where
  "failedRun = \<lparr>cc_success = False, cc_output = [], cc_error = Some (str ''exit 1'')\<rparr>"

definition majorReview :: ReviewResult where
  "majorReview =
     \<lparr>rr_success = True, rr_hasMajorIssues = True,
      rr_reviewContent = str ''**Status: Major Issues Found**'', rr_error = None\<rparr>"

definition majorEnv :: "(int \<Rightarrow> ClaudeCodeResult) \<Rightarrow> Env" where
  "majorEnv inc =
     \<lparr>claudeCodeInstalled = True, openAIKeyConfigured = True, workspaceFolderOpen = True,
      gitAvailable = True, reviewerProvider = ProviderOpenAI, maxReviewIterations = 3,
      maxBuildIterations = 5, buildReviewMode = OpenAIOnly,
      lastAssistantText = (\<lambda>out. None),
      generationRun = okRun, incorporationRun = inc, reviewerRun = (\<lambda>i. okRun),
      openAIReview = (\<lambda>i. majorReview), planFile = None,
      buildRun = (\<lambda>k. okRun), feedbackRun = (\<lambda>k i. okRun),
      gitAddAll = (\<lambda>k i. None), gitDiffStaged = (\<lambda>k i. None),
      gitDiffNameOnly = (\<lambda>k i. None),
      openAICodeReview = (\<lambda>k i. \<lparr>cr_success = False, cr_hasMajorIssues = True,
         cr_hasMinorIssues = False, cr_reviewContent = [], cr_error = None\<rparr>),
      codeReviewerRun = (\<lambda>k i. okRun), agentReviewerRun = (\<lambda>k i. okRun)\<rparr>"

text \<open>
  The severity the build loop acts on, merged from the two reviews of an iteration, and
  the two reviews an iteration obtains from a given state of the build.
\<close>

datatype Severity = SevNone | SevMinor | SevMajor

definition mergedSeverity :: "CodeReviewResult \<times> CodeReviewResult option \<Rightarrow> Severity" where
  "mergedSeverity r =
     (if hasAnyMajorIssues (fst r) (snd r) then SevMajor
      else if hasOnlyMinorIssues (fst r) (snd r) then SevMinor
      else SevNone)"

definition iterationReviews ::
  "Env \<Rightarrow> nat \<Rightarrow> nat \<Rightarrow> int \<Rightarrow> BuildState
     \<Rightarrow> (CodeReviewResult \<times> CodeReviewResult option) \<times> BuildState" where
  "iterationReviews env reviewerSessionId k iteration st =
     (case getStagedDiff env k iteration (world st) of
        (diffResult, w1) \<Rightarrow>
          (case primaryReviewStep env (diff diffResult) k iteration w1 of
             (primaryReview, w2) \<Rightarrow>
               (case claudeReviewStep env k iteration reviewerSessionId (st\<lparr>world := w2\<rparr>) of
                  (claudeReview, st3) \<Rightarrow> ((primaryReview, claudeReview), st3))))"

definition diffHasChanges :: "Env \<Rightarrow> nat \<Rightarrow> int \<Rightarrow> bool" where
  "diffHasChanges env k i \<longleftrightarrow>
     (\<forall>w. hasChanges (fst (getStagedDiff env k i w)))"

text \<open>The merged review of an iteration has the given severity.\<close>

definition mergedAt :: "Env \<Rightarrow> nat \<Rightarrow> nat \<Rightarrow> int \<Rightarrow> Severity \<Rightarrow> bool" where
  "mergedAt env r k i s \<longleftrightarrow>
     (\<forall>st. mergedSeverity (fst (iterationReviews env r k i st)) = s)"

text \<open>
  The phase at position \<open>k\<close> is built, its merged review is MINOR in the first iteration
  and NONE or MINOR in the second, both diffs show changes, and the BUILDER takes the
  feedback of the first review.
\<close>

definition minorThenNoMajor :: "Env \<Rightarrow> nat \<Rightarrow> nat \<Rightarrow> bool" where
  "minorThenNoMajor env r k \<longleftrightarrow>
     cc_success (buildRun env k)
     \<and> diffHasChanges env k 1 \<and> diffHasChanges env k 2
     \<and> mergedAt env r k 1 SevMinor
     \<and> (mergedAt env r k 2 SevNone \<or> mergedAt env r k 2 SevMinor)
     \<and> cc_success (feedbackRun env k 1)"

text \<open>
  An outside world for the build in the mode architect-only: the plan, what git answers,
  and the text the REVIEWER ends each review with.
\<close>

definition agentEnv ::
  "jsstring option \<Rightarrow> (nat \<Rightarrow> int \<Rightarrow> jsstring option) \<Rightarrow> (nat \<Rightarrow> int \<Rightarrow> jsstring) \<Rightarrow> Env" where
  "agentEnv plan git verdictText =
     \<lparr>claudeCodeInstalled = True, openAIKeyConfigured = True, workspaceFolderOpen = True,
      gitAvailable = True, reviewerProvider = ProviderOpenAI, maxReviewIterations = 3,
      maxBuildIterations = 5, buildReviewMode = ArchitectOnly,
      lastAssistantText = (\<lambda>out. Some out),
      generationRun = okRun, incorporationRun = (\<lambda>i. okRun), reviewerRun = (\<lambda>i. okRun),
      openAIReview = (\<lambda>i. majorReview), planFile = plan,
      buildRun = (\<lambda>k. okRun), feedbackRun = (\<lambda>k i. okRun),
      gitAddAll = git, gitDiffStaged = git, gitDiffNameOnly = git,
      openAICodeReview = (\<lambda>k i. \<lparr>cr_success = False, cr_hasMajorIssues = True,
         cr_hasMinorIssues = False, cr_reviewContent = [], cr_error = None\<rparr>),
      codeReviewerRun = (\<lambda>k i. okRun),
      agentReviewerRun =
        (\<lambda>k i. \<lparr>cc_success = True, cc_output = verdictText k i, cc_error = None\<rparr>)\<rparr>"

definition onePhasePlan :: jsstring where
  "onePhasePlan = join_nl [str ''## Phase 1: a'', str ''x'']"

definition changed :: "nat \<Rightarrow> int \<Rightarrow> jsstring option" where
  "changed k i = Some (str ''+x'')"

definition gitBroken :: "nat \<Rightarrow> int \<Rightarrow> jsstring option" where
  "gitBroken k i = None"

definition minorThenNone :: "nat \<Rightarrow> int \<Rightarrow> jsstring" where
  "minorThenNone k i =
     (if i = 1 then str ''**Action Required**: MINOR'' else str ''**Action Required**: NONE'')"

definition majorThenNone :: "nat \<Rightarrow> int \<Rightarrow> jsstring" where
  "majorThenNone k i =
     (if i = 1 then str ''**Action Required**: MAJOR'' else str ''**Action Required**: NONE'')"

definition minorEveryTime :: "nat \<Rightarrow> int \<Rightarrow> jsstring" where
  "minorEveryTime k i = str ''**Action Required**: MINOR''"

definition phaseOne :: Phase where
  "phaseOne = \<lparr>number = 1, description = str ''a'', content = join_nl [str ''## Phase 1: a'', str ''x'']\<rparr>"

definition phaseTwo :: Phase where
  "phaseTwo = \<lparr>number = 2, description = str ''b'', content = str ''## Phase 2: b''\<rparr>"

definition startState :: BuildState where
  "startState = \<lparr>world = worldAt Building, isFirstReviewerCheck = True, minorIssuesIteration = False\<rparr>"

definition prosePlan :: jsstring where
  "prosePlan = join_nl [str ''# Plan'', str ''Phase 1: no hashes'']"

section \<open>Sessions in the record of a run\<close>

text \<open>
  The record is newest first. \<open>reviewersFresh R\<close> holds of a record when every process
  started at a site in \<open>R\<close> was started fresh, on a session id that no earlier process of
  the record ran on. \<open>agentCalls\<close> lists the session id and the resume flag of the
  processes of the build's REVIEWER; \<open>agentResumes rsid\<close> holds when all of them ran on
  \<open>rsid\<close>, the first one fresh and every later one resuming.
\<close>

fun runOf :: "Event \<Rightarrow> (Site \<times> nat \<times> bool) option" where
  "runOf (RunClaude site sid resume) = Some (site, sid, resume)"
| "runOf e = None"

fun sessionsOf :: "Event list \<Rightarrow> nat list" where
  "sessionsOf [] = []"
| "sessionsOf (e # older) =
     (case runOf e of None \<Rightarrow> sessionsOf older | Some (site, sid, resume) \<Rightarrow> sid # sessionsOf older)"

fun isReviewerSite :: "Site \<Rightarrow> bool" where
  "isReviewerSite SpecReviewerSite = True"
| "isReviewerSite PlanReviewerSite = True"
| "isReviewerSite CodeReviewerSite = True"
| "isReviewerSite AgentReviewerSite = True"
| "isReviewerSite s = False"

fun isProviderReviewerSite :: "Site \<Rightarrow> bool" where
  "isProviderReviewerSite SpecReviewerSite = True"
| "isProviderReviewerSite PlanReviewerSite = True"
| "isProviderReviewerSite CodeReviewerSite = True"
| "isProviderReviewerSite s = False"

fun reviewersFresh :: "(Site \<Rightarrow> bool) \<Rightarrow> Event list \<Rightarrow> bool" where
  "reviewersFresh R [] = True"
| "reviewersFresh R (e # older) =
     (case runOf e of
        None \<Rightarrow> reviewersFresh R older
      | Some (site, sid, resume) \<Rightarrow>
          (if R site then \<not> resume \<and> \<not> List.member (sessionsOf older) sid else True)
          \<and> reviewersFresh R older)"

fun agentCalls :: "Event list \<Rightarrow> (nat \<times> bool) list" where
  "agentCalls [] = []"
| "agentCalls (e # older) =
     (case runOf e of
        None \<Rightarrow> agentCalls older
      | Some (site, sid, resume) \<Rightarrow>
          if site = AgentReviewerSite then (sid, resume) # agentCalls older
          else agentCalls older)"

fun resumesOk :: "nat \<Rightarrow> (nat \<times> bool) list \<Rightarrow> bool" where
  "resumesOk rsid [] = True"
| "resumesOk rsid (c # older) =
     (fst c = rsid \<and> snd c = (older \<noteq> []) \<and> resumesOk rsid older)"

definition agentResumes :: "nat \<Rightarrow> Event list \<Rightarrow> bool" where
  "agentResumes rsid tr = resumesOk rsid (agentCalls tr)"

text \<open>
  The invariants of a run: every session id of the record was drawn from the supply; a
  step keeps that and the freshness of the reviewers; in a build the REVIEWER session id
  was drawn, its processes resume as described, and \<open>isFirstReviewerCheck\<close> says whether
  there has been one.
\<close>

definition sessionsBelow :: "World \<Rightarrow> bool" where
  "sessionsBelow w \<longleftrightarrow> list_all (\<lambda>sid. sid < nextUuid w) (sessionsOf (trace w))"

definition wellFormed :: "(Site \<Rightarrow> bool) \<Rightarrow> World \<Rightarrow> bool" where
  "wellFormed R w \<longleftrightarrow> reviewersFresh R (trace w) \<and> sessionsBelow w"

definition keeps :: "(Site \<Rightarrow> bool) \<Rightarrow> World \<Rightarrow> World \<Rightarrow> bool" where
  "keeps R w w' \<longleftrightarrow> (wellFormed R w \<longrightarrow> wellFormed R w') \<and> nextUuid w \<le> nextUuid w'"

definition buildInvariant :: "(Site \<Rightarrow> bool) \<Rightarrow> nat \<Rightarrow> BuildState \<Rightarrow> bool" where
  "buildInvariant R rsid st \<longleftrightarrow>
     wellFormed R (world st) \<and> rsid < nextUuid (world st)
     \<and> agentResumes rsid (trace (world st))
     \<and> (isFirstReviewerCheck st \<longleftrightarrow> agentCalls (trace (world st)) = [])"

definition buildKeeps :: "(Site \<Rightarrow> bool) \<Rightarrow> nat \<Rightarrow> BuildState \<Rightarrow> BuildState \<Rightarrow> bool" where
  "buildKeeps R rsid st st' \<longleftrightarrow>
     (buildInvariant R rsid st \<longrightarrow> buildInvariant R rsid st') \<and> nextUuid (world st) \<le> nextUuid (world st')"

definition sessionInvariant :: "(Site \<Rightarrow> bool) \<Rightarrow> nat \<Rightarrow> bool \<Rightarrow> World \<Rightarrow> bool" where
  "sessionInvariant R rsid isFirst w \<longleftrightarrow>
     wellFormed R w \<and> rsid < nextUuid w \<and> agentResumes rsid (trace w)
     \<and> (isFirst \<longleftrightarrow> agentCalls (trace w) = [])"

section \<open>Properties of the status machine\<close>

text \<open>
  Claim C2. For all pairs of the ten statuses, \<open>canTransition\<close> is true exactly on the
  edges requested-draft, draft-spec-reviewed, spec-reviewed-plan-created,
  plan-created-plan-reviewed, plan-reviewed-ready-for-build, ready-for-build-building,
  building-code-review, code-review-testing, code-review-building, testing-implemented
  and testing-building, and false on every other pair; implemented has no outgoing edge.
\<close>

theorem canTransition_table:
  "canTransition from to =
     (from = Requested \<and> to = Draft \<or>
      from = Draft \<and> to = SpecReviewed \<or>
      from = SpecReviewed \<and> to = PlanCreated \<or>
      from = PlanCreated \<and> to = PlanReviewed \<or>
      from = PlanReviewed \<and> to = ReadyForBuild \<or>
      from = ReadyForBuild \<and> to = Building \<or>
      from = Building \<and> to = CodeReview \<or>
      from = CodeReview \<and> (to = Testing \<or> to = Building) \<or>
      from = Testing \<and> (to = Implemented \<or> to = Building))
   \<and> canTransition Implemented to = False"
  by (cases "from"; cases to; simp add: canTransition_def)

section \<open>Properties of the status writes\<close>

text \<open>
  Claim C1, as stated, asks that a status change whose pair is not in the adjacency table
  fails and leaves status and history as they were. The commands do not look at the
  table: "mark spec approved" on a feature that is still requested, a pair
  \<open>canTransition\<close> rejects, sets the status and adds a history line.
\<close>

theorem markSpecApproved_skips_table:
  "\<not> canTransition (sf_status (statusFile (worldAt Requested))) SpecReviewed
   \<and> sf_status (statusFile (markSpecApproved newFeature (worldAt Requested))) = SpecReviewed
   \<and> sf_history (statusFile (markSpecApproved newFeature (worldAt Requested)))
       = [(SrcUser, MarkedSpecApproved), (SrcSystem, CreatedFeature)]"
  by (simp add: canTransition_def markSpecApproved_def statusCommand_def emit_def
      updateFeatureStatus_def worldAt_def)

text \<open>
  Claim C1, amended. \<open>updateFeatureStatus\<close>, the one function through which the manual
  commands and the loops write a status, sets the requested status and prepends exactly
  one history line for every current status and every target, in the table or not; the
  manual commands reach their target status from any status.
\<close>

theorem updateFeatureStatus_unconditional:
  "sf_status (statusFile (updateFeatureStatus to source message w)) = to
   \<and> sf_history (statusFile (updateFeatureStatus to source message w))
       = (source, message) # sf_history (statusFile w)
   \<and> sf_status (statusFile (markSpecApproved f w)) = SpecReviewed
   \<and> sf_status (statusFile (markPlanApproved f w)) = PlanReviewed
   \<and> sf_status (statusFile (markReadyForBuild f w)) = ReadyForBuild
   \<and> sf_status (statusFile (markBuilding f w)) = Building
   \<and> sf_status (statusFile (markImplemented f w)) = Implemented
   \<and> sf_status (statusFile (runCodeReviewCommand f w)) = CodeReview
   \<and> sf_status (statusFile (approveBuild f w)) = Implemented
   \<and> sf_status (statusFile (rejectBuild f w)) = Building"
  by (simp add: updateFeatureStatus_def statusCommand_def emit_def markSpecApproved_def
      markPlanApproved_def markReadyForBuild_def markBuilding_def markImplemented_def
      runCodeReviewCommand_def approveBuild_def rejectBuild_def)

section \<open>Properties of the verdict classifiers\<close>

lemma parseVerdictBlock_legacy_major:
  assumes "search actionRequiredAt t = None" and "search builderMustFixAt t = None"
    and "statusMarkerTest (str ''Major Issues Found'') t"
  shows "parseVerdictBlock t = \<lparr>hasMajorIssues = True, hasMinorIssues = False\<rparr>"
  using assms by (simp add: parseVerdictBlock_def legacyVerdict_def)

text \<open>
  Claim C3 asks that a review text with the legacy marker "Status: Major Issues Found" and
  neither verdict field is classified as MAJOR by both classifiers. On the text that
  consists of the marker alone, neither field pattern matches and the marker pattern does;
  \<open>parseVerdictBlock\<close> answers MAJOR, \<open>parseReviewerVerdict\<close> answers that there is no
  issue at all: it has no branch for that marker.
\<close>

theorem parseReviewerVerdict_legacy_major_lost:
  "search actionRequiredAt (str ''**Status: Major Issues Found**'') = None
   \<and> search builderMustFixAt (str ''**Status: Major Issues Found**'') = None
   \<and> statusMarkerTest (str ''Major Issues Found'') (str ''**Status: Major Issues Found**'')
   \<and> parseVerdictBlock (str ''**Status: Major Issues Found**'')
       = \<lparr>hasMajorIssues = True, hasMinorIssues = False\<rparr>
   \<and> parseReviewerVerdict (str ''**Status: Major Issues Found**'')
       = \<lparr>hasMajorIssues = False, hasMinorIssues = False\<rparr>"
  by (simp add: parseVerdictBlock_def parseReviewerVerdict_def legacyVerdict_def
      statusMarkerTest_def statusMarkerAt_def actionRequiredAt_def builderMustFixAt_def
      str_def ci_eq_def ascii_upper_def is_space_def)

text \<open>
  Claim C9. A review text in which neither verdict field pattern matches and neither
  legacy status marker occurs is classified as NONE, no major and no minor issue, by both
  classifiers.
\<close>

theorem unstructured_text_is_NONE:
  assumes "search actionRequiredAt t = None" and "search builderMustFixAt t = None"
    and "\<not> statusMarkerTest (str ''Major Issues Found'') t"
    and "\<not> statusMarkerTest (str ''No Major Issues'') t"
  shows "parseReviewerVerdict t = \<lparr>hasMajorIssues = False, hasMinorIssues = False\<rparr>
       \<and> parseVerdictBlock t = \<lparr>hasMajorIssues = False, hasMinorIssues = False\<rparr>"
  using assms by (simp add: parseReviewerVerdict_def parseVerdictBlock_def legacyVerdict_def)

theorem unstructured_text_is_NONE_witness:
  "search actionRequiredAt (str ''Looks good, ship it.'') = None
   \<and> search builderMustFixAt (str ''Looks good, ship it.'') = None
   \<and> \<not> statusMarkerTest (str ''Major Issues Found'') (str ''Looks good, ship it.'')
   \<and> \<not> statusMarkerTest (str ''No Major Issues'') (str ''Looks good, ship it.'')
   \<and> parseReviewerVerdict (str ''Looks good, ship it.'')
       = \<lparr>hasMajorIssues = False, hasMinorIssues = False\<rparr>
   \<and> parseVerdictBlock (str ''Looks good, ship it.'')
       = \<lparr>hasMajorIssues = False, hasMinorIssues = False\<rparr>"
proof -
  have a: "search actionRequiredAt (str ''Looks good, ship it.'') = None"
    by (simp add: actionRequiredAt_def str_def ci_eq_def ascii_upper_def)
  have b: "search builderMustFixAt (str ''Looks good, ship it.'') = None"
    by (simp add: builderMustFixAt_def str_def ci_eq_def ascii_upper_def)
  have c: "\<not> statusMarkerTest (str ''Major Issues Found'') (str ''Looks good, ship it.'')"
    by (simp add: statusMarkerTest_def statusMarkerAt_def str_def ci_eq_def ascii_upper_def)
  have d: "\<not> statusMarkerTest (str ''No Major Issues'') (str ''Looks good, ship it.'')"
    by (simp add: statusMarkerTest_def statusMarkerAt_def str_def ci_eq_def ascii_upper_def)
  from unstructured_text_is_NONE [OF a b c d] a b c d show ?thesis by blast
qed

section \<open>Properties of the phase extractor\<close>

lemmas header_eval = matchPhaseHeader_def descriptionGroup_def is_separator_def parseInt10_def
  toDouble_def one_enat_def numeral_eq_enat trim_def str_def ci_eq_def ascii_upper_def
  is_space_def is_digit_def is_line_terminator_def

text \<open>Numbers below \<open>2 ^ 53\<close> are doubles.\<close>

lemma toDouble_exact: "n < 9007199254740992 \<Longrightarrow> toDouble n = enat n"
  by (simp add: toDouble_def)

text \<open>
  Above \<open>2 ^ 53\<close> every second natural number is a double up to \<open>2 ^ 54\<close>: an odd
  number lies half-way between two doubles and goes to the one with the even significand.
\<close>

lemma toDouble_ties:
  "toDouble 9007199254740993 = 9007199254740992
   \<and> toDouble 9007199254740994 = 9007199254740994
   \<and> toDouble 9007199254740995 = 9007199254740996"
  by (simp add: toDouble_def bitLength.simps Let_def doubleLimit_def numeral_eq_enat)

lemma bitLength_bounds: "n \<noteq> 0 \<Longrightarrow> 2 ^ (bitLength n - 1) \<le> n \<and> n < 2 ^ bitLength n"
proof (induction n rule: bitLength.induct)
  case (1 n)
  show ?case
  proof (cases "n div 2 = 0")
    case True
    with 1 have "n = 1" by (cases n) auto
    then show ?thesis by (simp add: bitLength.simps)
  next
    case False
    with 1 have ih: "2 ^ (bitLength (n div 2) - 1) \<le> n div 2" "n div 2 < 2 ^ bitLength (n div 2)"
      by auto
    have pos: "bitLength (n div 2) \<noteq> 0" using False by (simp add: bitLength.simps)
    have bl: "bitLength n = Suc (bitLength (n div 2))" using 1 by (simp add: bitLength.simps)
    have "2 * 2 ^ (bitLength (n div 2) - 1) \<le> n" using ih(1) by linarith
    moreover have "2 * 2 ^ (bitLength (n div 2) - 1) = (2::nat) ^ bitLength (n div 2)"
      using pos by (cases "bitLength (n div 2)") auto
    moreover have "n < 2 * 2 ^ bitLength (n div 2)" using ih(2) by linarith
    ultimately show ?thesis by (simp add: bl)
  qed
qed

lemma toDouble_overflow:
  assumes "2 ^ (53 + e) \<le> n"
    and "q = n div 2 ^ (bitLength n - 53) \<or> q = n div 2 ^ (bitLength n - 53) + 1"
  shows "(2::nat) ^ (53 + e) \<le> q * 2 ^ (bitLength n - 53)"
proof -
  have n0: "n \<noteq> 0"
  proof
    assume "n = 0"
    with assms(1) have "(2::nat) ^ (53 + e) = 0" by simp
    then show False by simp
  qed
  let ?L = "bitLength n"
  from bitLength_bounds [OF n0] have lo: "2 ^ (?L - 1) \<le> n" and hi: "n < 2 ^ ?L" by auto
  from assms(1) hi have "(2::nat) ^ (53 + e) < 2 ^ ?L" by linarith
  then have L: "53 + e < ?L" by (simp add: power_strict_increasing_iff)
  let ?s = "?L - 53"
  have split: "?L - 1 = 52 + ?s" using L by simp
  have "(2::nat) ^ 52 * 2 ^ ?s \<le> n" using lo unfolding split power_add .
  then have q: "2 ^ 52 \<le> n div 2 ^ ?s"
    by (simp add: less_eq_div_iff_mult_less_eq)
  have "(2::nat) ^ (53 + e) \<le> 2 ^ (?L - 1)" using L by (intro power_increasing) simp_all
  also have "\<dots> = 2 ^ 52 * 2 ^ ?s" unfolding split power_add ..
  also have "\<dots> \<le> (n div 2 ^ ?s) * 2 ^ ?s" using q by (intro mult_le_mono1)
  finally have v: "(2::nat) ^ (53 + e) \<le> (n div 2 ^ ?s) * 2 ^ ?s" .
  also have "\<dots> \<le> (n div 2 ^ ?s + 1) * 2 ^ ?s" by (intro mult_le_mono1) simp
  finally have v': "(2::nat) ^ (53 + e) \<le> (n div 2 ^ ?s + 1) * 2 ^ ?s" .
  show ?thesis using assms(2) v v' by blast
qed

lemma doubleLimit_exponent: "doubleLimit = 2 ^ (53 + 971)"
  by (simp add: doubleLimit_def)

text \<open>A run of digits that writes \<open>2 ^ 1024\<close> or more gives Infinity.\<close>

lemma toDouble_infinity:
  assumes "doubleLimit \<le> n"
  shows "toDouble n = \<infinity>"
proof -
  have n: "2 ^ (53 + 971) \<le> n" using assms unfolding doubleLimit_exponent .
  have p: "(2::nat) ^ 53 \<le> 2 ^ (53 + 971)" by (rule power_increasing) simp_all
  have "(2::nat) ^ 53 \<le> n" by (rule order_trans [OF p n])
  then have n53: "\<not> n < 9007199254740992" by simp
  show ?thesis
    using n53 toDouble_overflow [OF n, folded doubleLimit_exponent]
    unfolding toDouble_def Let_def by simp
qed



lemma phaseBlocks_skip:
  "\<forall>l\<in>set pre. \<not> is_header l \<Longrightarrow> phaseBlocks (pre @ ls) = phaseBlocks ls"
  by (induction pre) auto

lemma blockPhase_header:
  "matchPhaseHeader l = Some (digits, desc) \<Longrightarrow>
   blockPhase (l, body) =
     \<lparr>number = parseInt10 digits, description = trim desc, content = trim (join_nl (l # body))\<rparr>"
  by (simp add: blockPhase_def blockText_def)

text \<open>
  The loop, started anywhere: the open phase takes the lines up to the next header, and
  the rest of the lines give their blocks in order.
\<close>

lemma phaseLoop_blocks:
  "phaseLoop ls currentPhase currentContent phases =
     closePhase currentPhase (currentContent @ takeWhile (\<lambda>x. \<not> is_header x) ls) phases
       @ map blockPhase (phaseBlocks ls)"
proof (induction ls arbitrary: currentPhase currentContent phases)
  case Nil
  show ?case by simp
next
  case (Cons line lines)
  show ?case
  proof (cases "matchPhaseHeader line")
    case None
    then have nh: "\<not> is_header line" by (simp add: is_header_def)
    show ?thesis
    proof (cases currentPhase)
      case None
      with \<open>matchPhaseHeader line = None\<close> nh Cons.IH [of None currentContent phases]
      show ?thesis by (simp add: closePhase_def)
    next
      case (Some p)
      with \<open>matchPhaseHeader line = None\<close> nh
        Cons.IH [of "Some p" "currentContent @ [line]" phases]
      show ?thesis by simp
    qed
  next
    case (Some g)
    obtain digits desc where g: "g = (digits, desc)" by (cases g)
    have h: "is_header line" using Some by (simp add: is_header_def)
    show ?thesis
      using Some g h
        Cons.IH [of "Some \<lparr>number = parseInt10 digits, description = trim desc, content = []\<rparr>"
                    "[line]" "closePhase currentPhase currentContent phases"]
      by (simp add: blockPhase_header closePhase_def)
  qed
qed

lemma no_headers_no_phases:
  assumes "\<forall>l\<in>set (split_nl c). matchPhaseHeader l = None"
  shows "parsePlanPhasesFromContent c = []"
proof -
  have "phaseBlocks (split_nl c @ []) = phaseBlocks []"
    using assms by (intro phaseBlocks_skip) (simp add: is_header_def)
  then show ?thesis
    by (simp add: parsePlanPhasesFromContent_def phaseLoop_blocks closePhase_def)
qed

text \<open>
  Two headers whose digits differ and round to the same double give phases of equal
  number, which the stable sort leaves in the order of the text.
\<close>

lemma equal_numbers_keep_textual_order:
  "map number (parsePlanPhasesFromContent roundedPlan) = [9007199254740992, 9007199254740992]
   \<and> map description (parsePlanPhasesFromContent roundedPlan) = [str ''a'', str ''b'']"
  by (simp add: roundedPlan_def parsePlanPhasesFromContent_def closePhase_def header_eval
      bitLength.simps Let_def doubleLimit_def)




section \<open>Properties of the spec and plan loops\<close>

lemma emit_simps [simp]:
  "trace (emit e w) = e # trace w"
  "statusFile (emit e w) = statusFile w"
  "nextUuid (emit e w) = nextUuid w"
  by (simp_all add: emit_def)

lemma logToFeatureHistory_simps [simp]:
  "trace (logToFeatureHistory s m w) = trace w"
  "nextUuid (logToFeatureHistory s m w) = nextUuid w"
  "sf_status (statusFile (logToFeatureHistory s m w)) = sf_status (statusFile w)"
  "sf_history (statusFile (logToFeatureHistory s m w)) = (s, m) # sf_history (statusFile w)"
  by (simp_all add: logToFeatureHistory_def)

lemma updateFeatureStatus_simps [simp]:
  "trace (updateFeatureStatus t s m w) = trace w"
  "nextUuid (updateFeatureStatus t s m w) = nextUuid w"
  "sf_status (statusFile (updateFeatureStatus t s m w)) = t"
  "sf_history (statusFile (updateFeatureStatus t s m w)) = (s, m) # sf_history (statusFile w)"
  by (simp_all add: updateFeatureStatus_def)

lemma generateSessionId_simps [simp]:
  "fst (generateSessionId w) = nextUuid w"
  "trace (snd (generateSessionId w)) = trace w"
  "statusFile (snd (generateSessionId w)) = statusFile w"
  "nextUuid (snd (generateSessionId w)) = Suc (nextUuid w)"
  by (simp_all add: generateSessionId_def)

lemma reviewArtifact_success:
  assumes "rr_success (fst (reviewArtifact env a p i w))"
  shows "\<exists>e. trace (snd (reviewArtifact env a p i w)) = e # trace w \<and> isReviewCall e
             \<and> \<not> isIncorporation e \<and> (\<forall>m. e \<noteq> ShowWarning m)"
    and "statusFile (snd (reviewArtifact env a p i w)) = statusFile w"
  using assms
  by (auto simp: reviewArtifact_def reviewWithOpenAI_def reviewWithClaude_def failedReview_def
      ensureClaudeCodeInstalled_def runClaudeCodeWithProgress_def generateSessionId_def
      parseClaudeReviewOutput_def reviewerSite_def emit_def
      split: if_splits prod.splits Artifact.splits)

lemma reviewIteration_major_continue:
  assumes "alwaysMajor env a p" and "cc_success (incorporationRun env i)"
    and "i < maxReviewIterations env"
    and st: "reviewIteration env a p sid i w = (st, w')"
  shows "st = Continue
       \<and> reviewCalls w' = reviewCalls w + 1
       \<and> incorporationCalls w' = incorporationCalls w + 1
       \<and> (\<forall>m. warnings m w' = warnings m w)
       \<and> logged SrcSystem MaxIterationsReached w' = logged SrcSystem MaxIterationsReached w"
proof -
  obtain r w1 where rw: "reviewArtifact env a p i w = (r, w1)"
    by (cases "reviewArtifact env a p i w")
  have r: "rr_success r" "rr_hasMajorIssues r" "rr_reviewContent r \<noteq> []"
    using assms(1) rw unfolding alwaysMajor_def by (metis fst_conv)+
  obtain e where e: "trace w1 = e # trace w" "isReviewCall e" "\<not> isIncorporation e"
      "\<forall>m. e \<noteq> ShowWarning m"
    using reviewArtifact_success(1) [of env a p i w] r(1) rw by auto
  have sf: "statusFile w1 = statusFile w"
    using reviewArtifact_success(2) [of env a p i w] r(1) rw by auto
  show ?thesis
    using st rw r assms(2,3) e sf
    by (auto simp: reviewIteration_def runClaudeCodeWithProgress_def Let_def reviewCalls_def
        incorporationCalls_def warnings_def logged_def)
qed

lemma reviewIteration_major_last:
  assumes "alwaysMajor env a p" and "i \<ge> maxReviewIterations env"
    and st: "reviewIteration env a p sid i w = (st, w')"
  shows "st = Break
       \<and> reviewCalls w' = reviewCalls w + 1
       \<and> incorporationCalls w' = incorporationCalls w
       \<and> warnings (MaxReviewIterationsReached a (maxReviewIterations env)) w'
           = warnings (MaxReviewIterationsReached a (maxReviewIterations env)) w + 1
       \<and> logged SrcSystem MaxIterationsReached w'
           = logged SrcSystem MaxIterationsReached w + 1"
proof -
  obtain r w1 where rw: "reviewArtifact env a p i w = (r, w1)"
    by (cases "reviewArtifact env a p i w")
  have r: "rr_success r" "rr_hasMajorIssues r" "rr_reviewContent r \<noteq> []"
    using assms(1) rw unfolding alwaysMajor_def by (metis fst_conv)+
  obtain e where e: "trace w1 = e # trace w" "isReviewCall e" "\<not> isIncorporation e"
      "\<forall>m. e \<noteq> ShowWarning m"
    using reviewArtifact_success(1) [of env a p i w] r(1) rw by auto
  have sf: "statusFile w1 = statusFile w"
    using reviewArtifact_success(2) [of env a p i w] r(1) rw by auto
  show ?thesis
    using st rw r assms(2) e sf
    by (auto simp: reviewIteration_def Let_def reviewCalls_def incorporationCalls_def
        warnings_def logged_def)
qed

lemma reviewIterations_always_major:
  assumes "alwaysMajor env a p" and "\<forall>i. cc_success (incorporationRun env i)"
    and "i \<le> maxReviewIterations env"
  shows "reviewCalls (reviewIterations env a p sid i w)
           = reviewCalls w + nat (maxReviewIterations env - i + 1)
       \<and> incorporationCalls (reviewIterations env a p sid i w)
           = incorporationCalls w + nat (maxReviewIterations env - i)
       \<and> warnings (MaxReviewIterationsReached a (maxReviewIterations env))
              (reviewIterations env a p sid i w)
           = warnings (MaxReviewIterationsReached a (maxReviewIterations env)) w + 1
       \<and> logged SrcSystem MaxIterationsReached (reviewIterations env a p sid i w)
           = logged SrcSystem MaxIterationsReached w + 1"
  using assms
proof (induction env a p sid i w rule: reviewIterations.induct)
  case (1 env a p sid i w)
  obtain st w' where st: "reviewIteration env a p sid i w = (st, w')"
    by (cases "reviewIteration env a p sid i w")
  show ?case
  proof (cases "i < maxReviewIterations env")
    case True
    have inc: "cc_success (incorporationRun env i)" using "1.prems"(2) by simp
    note facts = reviewIteration_major_continue [OF "1.prems"(1) inc True st]
    then have c: "st = Continue" by simp
    have IH: "reviewCalls (reviewIterations env a p sid (i + 1) w')
           = reviewCalls w' + nat (maxReviewIterations env - (i + 1) + 1)
       \<and> incorporationCalls (reviewIterations env a p sid (i + 1) w')
           = incorporationCalls w' + nat (maxReviewIterations env - (i + 1))
       \<and> warnings (MaxReviewIterationsReached a (maxReviewIterations env))
              (reviewIterations env a p sid (i + 1) w')
           = warnings (MaxReviewIterationsReached a (maxReviewIterations env)) w' + 1
       \<and> logged SrcSystem MaxIterationsReached (reviewIterations env a p sid (i + 1) w')
           = logged SrcSystem MaxIterationsReached w' + 1"
      using "1.IH" [OF _ st [symmetric] c "1.prems"(1,2)] "1.prems"(3) True by simp
    have unf: "reviewIterations env a p sid i w = reviewIterations env a p sid (i + 1) w'"
      using "1.prems"(3) st c by (subst reviewIterations.simps) simp
    show ?thesis
      using IH facts True unfolding unf
      by (simp add: nat_add_distrib nat_diff_distrib')
  next
    case False
    with "1.prems"(3) have eq: "i = maxReviewIterations env" by simp
    have ge: "i \<ge> maxReviewIterations env" using eq by simp
    note facts = reviewIteration_major_last [OF "1.prems"(1) ge st]
    then have c: "st = Break" by simp
    have unf: "reviewIterations env a p sid i w = w'"
      using "1.prems"(3) st c by (subst reviewIterations.simps) simp
    show ?thesis using facts eq unfolding unf by simp
  qed
qed

lemma majorEnv_fields:
  "claudeCodeInstalled (majorEnv inc)" "openAIKeyConfigured (majorEnv inc)"
  "reviewerProvider (majorEnv inc) = ProviderOpenAI" "maxReviewIterations (majorEnv inc) = 3"
  "generationRun (majorEnv inc) = okRun" "incorporationRun (majorEnv inc) = inc"
  "openAIReview (majorEnv inc) = (\<lambda>i. majorReview)"
  by (simp_all add: majorEnv_def)

lemma alwaysMajor_majorEnv: "alwaysMajor (majorEnv inc) Spec ProviderOpenAI"
  by (simp add: alwaysMajor_def reviewArtifact_def reviewWithOpenAI_def majorEnv_fields
      majorReview_def str_def)

lemma newFeature_paths:
  "\<not> falsy (requestPath newFeature)" "specPath newFeature \<noteq> []"
  "\<not> falsy (specReviewPath newFeature)"
  by (simp_all add: newFeature_def falsy_def str_def)

text \<open>
  Claim C5, as stated, fixes the number of review and incorporation calls once the first
  generation succeeds, every review succeeds with major issues and the bound is 3. The
  loop also ends when an incorporation call fails: with the first incorporation failing
  there is one review call and one incorporation call, no warning about the bound, and the
  status still moves to draft.
\<close>

theorem incorporation_failure_ends_loop:
  "claudeCodeInstalled (majorEnv (\<lambda>i. failedRun))
   \<and> cc_success (generationRun (majorEnv (\<lambda>i. failedRun)))
   \<and> alwaysMajor (majorEnv (\<lambda>i. failedRun)) Spec ProviderOpenAI
   \<and> maxReviewIterations (majorEnv (\<lambda>i. failedRun)) = 3
   \<and> fst (generateSpecWithReviewLoop (majorEnv (\<lambda>i. failedRun)) newFeature (worldAt Requested))
   \<and> sf_status (statusFile (snd (generateSpecWithReviewLoop (majorEnv (\<lambda>i. failedRun))
         newFeature (worldAt Requested)))) = Draft
   \<and> reviewCalls (snd (generateSpecWithReviewLoop (majorEnv (\<lambda>i. failedRun))
         newFeature (worldAt Requested))) = 1
   \<and> incorporationCalls (snd (generateSpecWithReviewLoop (majorEnv (\<lambda>i. failedRun))
         newFeature (worldAt Requested))) = 1
   \<and> warnings (MaxReviewIterationsReached Spec 3)
         (snd (generateSpecWithReviewLoop (majorEnv (\<lambda>i. failedRun))
         newFeature (worldAt Requested))) = 0"
proof -
  have run: "generateSpecWithReviewLoop (majorEnv (\<lambda>i. failedRun)) newFeature (worldAt Requested)
    = (True,
       \<lparr>statusFile = \<lparr>sf_status = Draft, sf_history =
          [(SrcSystem, GenerationComplete Spec),
           (SrcSystem, FailedToIncorporateReview (str ''exit 1'')),
           (SrcOpenAI, ReviewIteration Spec 1 True),
           (SrcClaude, GeneratedInitial Spec),
           (SrcSystem, StartingGeneration Spec),
           (SrcSystem, CreatedFeature)]\<rparr>,
        nextUuid = 1,
        trace = [ShowInformation (Generated Spec),
                 ShowError (FailedToIncorporate (str ''exit 1'')),
                 RunClaude (IncorporateSite Spec) 0 True,
                 OpenAIRequest,
                 RunClaude (GenerateSite Spec) 0 False]\<rparr>)"
    by (simp add: generateSpecWithReviewLoop_def generateAndReview_def
        ensureClaudeCodeInstalled_def ensureReviewerConfigured_def ensureOpenAIConfigured_def
        majorEnv_fields newFeature_paths reviewIterations.simps reviewIteration_def
        reviewArtifact_def reviewWithOpenAI_def runClaudeCodeWithProgress_def
        generateSessionId_def getReviewerLogSource_def logToFeatureHistory_def
        updateFeatureStatus_def emit_def worldAt_def okRun_def failedRun_def majorReview_def
        errorOr_def str_def Let_def)
  show ?thesis
    unfolding run
    by (simp add: majorEnv_fields alwaysMajor_majorEnv okRun_def reviewCalls_def
        incorporationCalls_def warnings_def)
qed

text \<open>
  Claim C5, amended. When the pre-flight checks pass and the first generation succeeds,
  every review succeeds and reports major issues with a review text, every incorporation
  call succeeds, and the bound is 3, then the run makes exactly 3 review calls and 2
  incorporation calls, warns once that the bound was reached (notification and history
  line), moves the status to draft and returns success.
\<close>

theorem generateSpec_always_major:
  assumes "claudeCodeInstalled env"
    and "\<not> falsy (requestPath feature)" and "specPath feature \<noteq> []"
    and "\<not> falsy (specReviewPath feature)"
    and "cc_success (generationRun env)"
    and "alwaysMajor env Spec (reviewerProvider env)"
    and "\<forall>i. cc_success (incorporationRun env i)"
    and "maxReviewIterations env = 3"
  shows "fst (generateSpecWithReviewLoop env feature w)
       \<and> sf_status (statusFile (snd (generateSpecWithReviewLoop env feature w))) = Draft
       \<and> reviewCalls (snd (generateSpecWithReviewLoop env feature w)) = reviewCalls w + 3
       \<and> incorporationCalls (snd (generateSpecWithReviewLoop env feature w))
           = incorporationCalls w + 2
       \<and> warnings (MaxReviewIterationsReached Spec 3)
            (snd (generateSpecWithReviewLoop env feature w))
           = warnings (MaxReviewIterationsReached Spec 3) w + 1
       \<and> logged SrcSystem MaxIterationsReached (snd (generateSpecWithReviewLoop env feature w))
           = logged SrcSystem MaxIterationsReached w + 1"
proof -
  have conf: "ensureReviewerConfigured env (reviewerProvider env) w = (True, w)"
  proof (cases "reviewerProvider env")
    case ProviderOpenAI
    have "rr_success (fst (reviewArtifact env Spec ProviderOpenAI 1 w))"
      using assms(6) ProviderOpenAI by (simp add: alwaysMajor_def)
    then have "openAIKeyConfigured env"
      by (auto simp: reviewArtifact_def reviewWithOpenAI_def failedReview_def split: if_splits)
    then show ?thesis
      using ProviderOpenAI by (simp add: ensureReviewerConfigured_def ensureOpenAIConfigured_def)
  next
    case ProviderClaude
    then show ?thesis
      using assms(1) by (simp add: ensureReviewerConfigured_def ensureClaudeCodeInstalled_def)
  qed
  define w3 where "w3 = logToFeatureHistory SrcClaude (GeneratedInitial Spec)
     (emit (RunClaude (GenerateSite Spec) (nextUuid w) False)
        (snd (generateSessionId (logToFeatureHistory SrcSystem (StartingGeneration Spec) w))))"
  have base: "reviewCalls w3 = reviewCalls w" "incorporationCalls w3 = incorporationCalls w"
    "warnings m w3 = warnings m w" "logged SrcSystem MaxIterationsReached w3
       = logged SrcSystem MaxIterationsReached w" for m
    by (simp_all add: w3_def reviewCalls_def incorporationCalls_def warnings_def logged_def)
  have le: "1 \<le> maxReviewIterations env" using assms(8) by simp
  note loop = reviewIterations_always_major [OF assms(6,7) le, of "nextUuid w" w3]
  have run: "generateSpecWithReviewLoop env feature w
     = (True, emit (ShowInformation (Generated Spec))
          (updateFeatureStatus Draft SrcSystem (GenerationComplete Spec)
             (reviewIterations env Spec (reviewerProvider env) (nextUuid w) 1 w3)))"
    using assms(1-5) conf
    by (simp add: generateSpecWithReviewLoop_def generateAndReview_def
        ensureClaudeCodeInstalled_def runClaudeCodeWithProgress_def w3_def Let_def
        generateSessionId_def logToFeatureHistory_def)
  show ?thesis
    unfolding run using loop base assms(8)
    by (simp add: reviewCalls_def incorporationCalls_def warnings_def logged_def)
qed

theorem generateSpec_always_major_witness:
  "alwaysMajor (majorEnv (\<lambda>i. okRun)) Spec (reviewerProvider (majorEnv (\<lambda>i. okRun)))
   \<and> (\<forall>i. cc_success (incorporationRun (majorEnv (\<lambda>i. okRun)) i))
   \<and> fst (generateSpecWithReviewLoop (majorEnv (\<lambda>i. okRun)) newFeature (worldAt Requested))
   \<and> sf_status (statusFile (snd (generateSpecWithReviewLoop (majorEnv (\<lambda>i. okRun))
         newFeature (worldAt Requested)))) = Draft
   \<and> reviewCalls (snd (generateSpecWithReviewLoop (majorEnv (\<lambda>i. okRun))
         newFeature (worldAt Requested))) = 3
   \<and> incorporationCalls (snd (generateSpecWithReviewLoop (majorEnv (\<lambda>i. okRun))
         newFeature (worldAt Requested))) = 2
   \<and> warnings (MaxReviewIterationsReached Spec 3)
         (snd (generateSpecWithReviewLoop (majorEnv (\<lambda>i. okRun))
         newFeature (worldAt Requested))) = 1"
proof -
  have am: "alwaysMajor (majorEnv (\<lambda>i. okRun)) Spec (reviewerProvider (majorEnv (\<lambda>i. okRun)))"
    by (simp add: majorEnv_fields alwaysMajor_majorEnv)
  have inc: "\<forall>i. cc_success (incorporationRun (majorEnv (\<lambda>i. okRun)) i)"
    by (simp add: majorEnv_fields okRun_def)
  have gen: "cc_success (generationRun (majorEnv (\<lambda>i. okRun)))"
    by (simp add: majorEnv_fields okRun_def)
  have w0: "reviewCalls (worldAt Requested) = 0" "incorporationCalls (worldAt Requested) = 0"
    "warnings (MaxReviewIterationsReached Spec 3) (worldAt Requested) = 0"
    by (simp_all add: reviewCalls_def incorporationCalls_def warnings_def worldAt_def)
  from generateSpec_always_major [OF majorEnv_fields(1) newFeature_paths gen am inc
      majorEnv_fields(4), of "worldAt Requested"] am inc w0
  show ?thesis by simp
qed

section \<open>Properties of the build loop\<close>

lemma ensure_status [simp]:
  "statusFile (snd (ensureClaudeCodeInstalled env w)) = statusFile w"
  "statusFile (snd (ensureReviewerConfigured env p w)) = statusFile w"
  "nextUuid (snd (ensureClaudeCodeInstalled env w)) = nextUuid w"
  "nextUuid (snd (ensureReviewerConfigured env p w)) = nextUuid w"
  by (simp_all add: ensureClaudeCodeInstalled_def ensureReviewerConfigured_def
      ensureOpenAIConfigured_def)

lemma getStagedDiff_failure:
  assumes "gitAddAll env k i = None \<or> gitDiffStaged env k i = None
           \<or> gitDiffNameOnly env k i = None"
  shows "getStagedDiff env k i w = (noChanges, emit GitStagedDiff w)"
  using assms by (auto simp: getStagedDiff_def split: option.splits)

lemma getStagedDiff_snd [simp]: "snd (getStagedDiff env k i w) = emit GitStagedDiff w"
  by (simp add: getStagedDiff_def)

lemma buildIteration_reviews:
  assumes "diffHasChanges env k i"
  shows "buildIteration env b r k phase i st =
     afterReviews env b k phase i (fst (fst (iterationReviews env r k i st)))
       (snd (fst (iterationReviews env r k i st))) (snd (iterationReviews env r k i st))"
proof -
  have "hasChanges (fst (getStagedDiff env k i (world st)))"
    using assms by (simp add: diffHasChanges_def)
  then show ?thesis
    by (simp add: buildIteration_def iterationReviews_def case_prod_beta)
qed

lemma logCodeReview_simps [simp]:
  "trace (logCodeReview s i r w) = trace w"
  "nextUuid (logCodeReview s i r w) = nextUuid w"
  by (simp_all add: logCodeReview_def)

lemma reviewCode_incorporations:
  "filter isIncorporation (trace (snd (reviewCode env d k i p w)))
     = filter isIncorporation (trace w)"
  by (simp add: reviewCode_def reviewCodeWithClaude_def reviewCodeWithOpenAI_def
      ensureClaudeCodeInstalled_def runClaudeCodeWithProgress_def generateSessionId_def
      parseClaudeReviewOutput_def case_prod_beta)

lemma primaryReviewStep_incorporations:
  "filter isIncorporation (trace (snd (primaryReviewStep env d k i w)))
     = filter isIncorporation (trace w)"
  by (simp add: primaryReviewStep_def case_prod_beta reviewCode_incorporations)

lemma claudeReviewStep_effect:
  "filter isIncorporation (trace (world (snd (claudeReviewStep env k i r st))))
     = filter isIncorporation (trace (world st))"
  "minorIssuesIteration (snd (claudeReviewStep env k i r st)) = minorIssuesIteration st"
  by (simp_all add: claudeReviewStep_def runCodeReview_def runClaudeCodeWithProgress_def
      case_prod_beta Let_def)

lemma iterationReviews_effect:
  "minorIssuesIteration (snd (iterationReviews env r k i st)) = minorIssuesIteration st"
  "incorporationCalls (world (snd (iterationReviews env r k i st)))
     = incorporationCalls (world st)"
  by (simp_all add: iterationReviews_def case_prod_beta claudeReviewStep_effect
      primaryReviewStep_incorporations incorporationCalls_def)

lemma afterReviews_none:
  assumes "mergedSeverity (p, c) = SevNone"
  shows "afterReviews env b k phase i p c st =
     (BreakLoop, st\<lparr>world := logToFeatureHistory SrcSystem
                                (PhaseApproved (number phase) i) (world st)\<rparr>)"
  using assms by (simp add: afterReviews_def mergedSeverity_def Let_def split: if_splits)

lemma afterReviews_minor_spent:
  assumes "mergedSeverity (p, c) = SevMinor" and "minorIssuesIteration st"
  shows "afterReviews env b k phase i p c st =
     (BreakLoop, st\<lparr>world := logToFeatureHistory SrcSystem
                                (PhaseApprovedMinorLogged (number phase) i) (world st)\<rparr>)"
  using assms by (simp add: afterReviews_def mergedSeverity_def Let_def split: if_splits)

lemma afterReviews_minor_first:
  assumes "mergedSeverity (p, c) = SevMinor" and "\<not> minorIssuesIteration st"
    and "i < maxBuildIterations env" and "cc_success (feedbackRun env k i)"
  shows "afterReviews env b k phase i p c st =
     (ContinueLoop,
      st\<lparr>world := logToFeatureHistory SrcClaude (BuilderAddressedFeedback (i + 1))
                     (emit (RunClaude BuildIncorporateSite b True)
                        (logToFeatureHistory SrcSystem (MinorIssuesOnlyOneIteration i)
                           (world st))),
         minorIssuesIteration := True\<rparr>)"
  using assms
  by (simp add: afterReviews_def mergedSeverity_def runClaudeCodeWithProgress_def Let_def
      split: if_splits)

lemma agentEnv_fields:
  "claudeCodeInstalled (agentEnv plan git vt)" "gitAvailable (agentEnv plan git vt)"
  "openAIKeyConfigured (agentEnv plan git vt)"
  "maxBuildIterations (agentEnv plan git vt) = 5"
  "buildReviewMode (agentEnv plan git vt) = ArchitectOnly"
  "lastAssistantText (agentEnv plan git vt) = (\<lambda>out. Some out)"
  "planFile (agentEnv plan git vt) = plan"
  "buildRun (agentEnv plan git vt) = (\<lambda>k. okRun)"
  "feedbackRun (agentEnv plan git vt) = (\<lambda>k i. okRun)"
  "gitAddAll (agentEnv plan git vt) = git" "gitDiffStaged (agentEnv plan git vt) = git"
  "gitDiffNameOnly (agentEnv plan git vt) = git"
  "agentReviewerRun (agentEnv plan git vt)
     = (\<lambda>k i. \<lparr>cc_success = True, cc_output = vt k i, cc_error = None\<rparr>)"
  by (simp_all add: agentEnv_def)

lemmas verdict_eval = parseReviewerVerdict_def actionRequiredAt_def toUpperCase_def
  str_def ci_eq_def ascii_upper_def is_space_def

lemma verdict_texts:
  "parseReviewerVerdict (str ''**Action Required**: MINOR'')
     = \<lparr>hasMajorIssues = False, hasMinorIssues = True\<rparr>"
  "parseReviewerVerdict (str ''**Action Required**: NONE'')
     = \<lparr>hasMajorIssues = False, hasMinorIssues = False\<rparr>"
  "parseReviewerVerdict (str ''**Action Required**: MAJOR'')
     = \<lparr>hasMajorIssues = True, hasMinorIssues = False\<rparr>"
  by (simp_all add: verdict_eval)

lemma str_eq_Nil [simp]: "str s = [] \<longleftrightarrow> s = []"
  by (simp add: str_def)

lemma changed_diff: "diffHasChanges (agentEnv plan changed vt) k i"
  by (simp add: diffHasChanges_def getStagedDiff_def agentEnv_fields changed_def trim_def
      str_def is_space_def)

lemma agent_merged:
  "mergedAt (agentEnv plan changed minorThenNone) r k 1 SevMinor"
  "mergedAt (agentEnv plan changed minorThenNone) r k 2 SevNone"
  by (simp_all add: mergedAt_def iterationReviews_def primaryReviewStep_def claudeReviewStep_def
      runCodeReview_def runClaudeCodeWithProgress_def extractIntentSummary_def
      agentEnv_fields minorThenNone_def verdict_texts mergedSeverity_def hasAnyMajorIssues_def
      hasOnlyMinorIssues_def case_prod_beta Let_def)

text \<open>
  The reviews of an iteration write neither an approval of the phase nor the entry for
  the iteration that minor issues get.
\<close>

lemma phaseApprovals_simps [simp]:
  "phaseApprovals (emit e w) = phaseApprovals w"
  "phaseApprovals (logToFeatureHistory s m w)
     = (if isPhaseApproval (s, m) then Suc (phaseApprovals w) else phaseApprovals w)"
  by (simp_all add: phaseApprovals_def)

lemma logCodeReview_approvals [simp]:
  "phaseApprovals (logCodeReview s i r w) = phaseApprovals w"
  by (simp add: logCodeReview_def)

lemma reviewCode_approvals:
  "phaseApprovals (snd (reviewCode env d k i p w)) = phaseApprovals w"
  by (simp add: reviewCode_def reviewCodeWithClaude_def reviewCodeWithOpenAI_def
      ensureClaudeCodeInstalled_def runClaudeCodeWithProgress_def generateSessionId_def
      parseClaudeReviewOutput_def case_prod_beta phaseApprovals_def)

lemma primaryReviewStep_approvals:
  "phaseApprovals (snd (primaryReviewStep env d k i w)) = phaseApprovals w"
  by (simp add: primaryReviewStep_def case_prod_beta reviewCode_approvals)

lemma claudeReviewStep_approvals:
  "phaseApprovals (world (snd (claudeReviewStep env k i r st))) = phaseApprovals (world st)"
  by (simp add: claudeReviewStep_def runCodeReview_def runClaudeCodeWithProgress_def
      case_prod_beta Let_def)

lemma iterationReviews_approvals:
  "phaseApprovals (world (snd (iterationReviews env r k i st))) = phaseApprovals (world st)"
  by (simp add: iterationReviews_def case_prod_beta claudeReviewStep_approvals
      primaryReviewStep_approvals)

lemma minorRemediations_simps [simp]:
  "minorRemediations (emit e w) = minorRemediations w"
  "minorRemediations (logToFeatureHistory s m w)
     = (if isMinorRemediation (s, m) then Suc (minorRemediations w) else minorRemediations w)"
  by (simp_all add: minorRemediations_def)

lemma logCodeReview_remediations [simp]:
  "minorRemediations (logCodeReview s i r w) = minorRemediations w"
  by (simp add: logCodeReview_def)

lemma reviewCode_remediations:
  "minorRemediations (snd (reviewCode env d k i p w)) = minorRemediations w"
  by (simp add: reviewCode_def reviewCodeWithClaude_def reviewCodeWithOpenAI_def
      ensureClaudeCodeInstalled_def runClaudeCodeWithProgress_def generateSessionId_def
      parseClaudeReviewOutput_def case_prod_beta minorRemediations_def)

lemma primaryReviewStep_remediations:
  "minorRemediations (snd (primaryReviewStep env d k i w)) = minorRemediations w"
  by (simp add: primaryReviewStep_def case_prod_beta reviewCode_remediations)

lemma claudeReviewStep_remediations:
  "minorRemediations (world (snd (claudeReviewStep env k i r st))) = minorRemediations (world st)"
  by (simp add: claudeReviewStep_def runCodeReview_def runClaudeCodeWithProgress_def
      case_prod_beta Let_def)

lemma iterationReviews_remediations:
  "minorRemediations (world (snd (iterationReviews env r k i st)))
     = minorRemediations (world st)"
  by (simp add: iterationReviews_def case_prod_beta claudeReviewStep_remediations
      primaryReviewStep_remediations)

text \<open>
  The loop of one phase, entered with the budget unspent: MINOR, then NONE or MINOR.
\<close>

lemma phaseReviewLoop_minor_then_no_major:
  assumes max: "2 \<le> maxBuildIterations env"
    and d1: "diffHasChanges env k 1" and d2: "diffHasChanges env k 2"
    and m1: "mergedAt env r k 1 SevMinor"
    and m2: "mergedAt env r k 2 s2" and s2: "s2 = SevNone \<or> s2 = SevMinor"
    and fb: "cc_success (feedbackRun env k 1)"
    and fresh: "\<not> minorIssuesIteration st"
  shows "fst (phaseReviewLoop env b r k phase 1 st)
       \<and> incorporationCalls (world (snd (phaseReviewLoop env b r k phase 1 st)))
           = incorporationCalls (world st) + 1
       \<and> phaseApprovals (world (snd (phaseReviewLoop env b r k phase 1 st)))
           = phaseApprovals (world st) + 1
       \<and> minorRemediations (world (snd (phaseReviewLoop env b r k phase 1 st)))
           = minorRemediations (world st) + 1
       \<and> hd (sf_history (statusFile (world (snd (phaseReviewLoop env b r k phase 1 st)))))
           = (SrcSystem, if s2 = SevNone then PhaseApproved (number phase) 2
                         else PhaseApprovedMinorLogged (number phase) 2)"
proof -
  define st1 where "st1 = snd (iterationReviews env r k 1 st)"
  define st1' where "st1' =
     st1\<lparr>world := logToFeatureHistory SrcClaude (BuilderAddressedFeedback (1 + 1))
                     (emit (RunClaude BuildIncorporateSite b True)
                        (logToFeatureHistory SrcSystem (MinorIssuesOnlyOneIteration 1)
                           (world st1))),
         minorIssuesIteration := True\<rparr>"
  define st2 where "st2 = snd (iterationReviews env r k 2 st1')"
  define msg where "msg = (if s2 = SevNone then PhaseApproved (number phase) 2
                           else PhaseApprovedMinorLogged (number phase) 2)"
  have sev1: "mergedSeverity (fst (fst (iterationReviews env r k 1 st)),
                              snd (fst (iterationReviews env r k 1 st))) = SevMinor"
    using m1 by (simp add: mergedAt_def)
  have sev2: "mergedSeverity (fst (fst (iterationReviews env r k 2 st1')),
                              snd (fst (iterationReviews env r k 2 st1'))) = s2"
    using m2 by (simp add: mergedAt_def)
  have f1: "\<not> minorIssuesIteration st1"
    using fresh by (simp add: st1_def iterationReviews_effect)
  have lt: "1 < maxBuildIterations env" using max by simp
  have it1: "buildIteration env b r k phase 1 st = (ContinueLoop, st1')"
    unfolding buildIteration_reviews [OF d1] st1'_def
    using afterReviews_minor_first [OF sev1 _ lt fb, of st1 b phase] f1
    by (simp add: st1_def)
  have f2: "minorIssuesIteration st2"
    by (simp add: st2_def iterationReviews_effect st1'_def)
  have it2: "buildIteration env b r k phase 2 st1'
      = (BreakLoop, st2\<lparr>world := logToFeatureHistory SrcSystem msg (world st2)\<rparr>)"
  proof (cases "s2 = SevNone")
    case True
    then show ?thesis
      unfolding buildIteration_reviews [OF d2]
      using afterReviews_none [of "fst (fst (iterationReviews env r k 2 st1'))"
          "snd (fst (iterationReviews env r k 2 st1'))" env b k phase 2 st2] sev2
      by (simp add: st2_def msg_def)
  next
    case False
    with s2 have "s2 = SevMinor" by simp
    then show ?thesis
      unfolding buildIteration_reviews [OF d2]
      using afterReviews_minor_spent [of "fst (fst (iterationReviews env r k 2 st1'))"
          "snd (fst (iterationReviews env r k 2 st1'))" st2 env b k phase 2] sev2 f2
      by (simp add: st2_def msg_def)
  qed
  have lp2: "phaseReviewLoop env b r k phase 2 st1'
      = (True, st2\<lparr>world := logToFeatureHistory SrcSystem msg (world st2)\<rparr>)"
    using max by (subst phaseReviewLoop.simps) (simp add: it2)
  have lp1: "phaseReviewLoop env b r k phase 1 st
      = (True, st2\<lparr>world := logToFeatureHistory SrcSystem msg (world st2)\<rparr>)"
    using max lp2 by (subst phaseReviewLoop.simps) (simp add: it1)
  have c1: "incorporationCalls (world st1) = incorporationCalls (world st)"
    by (simp add: st1_def iterationReviews_effect)
  have c1': "incorporationCalls (world st1') = incorporationCalls (world st1) + 1"
    by (simp add: st1'_def incorporationCalls_def)
  have c2: "incorporationCalls (world st2) = incorporationCalls (world st1')"
    by (simp add: st2_def iterationReviews_effect)
  have a1: "phaseApprovals (world st1) = phaseApprovals (world st)"
    by (simp add: st1_def iterationReviews_approvals)
  have a1': "phaseApprovals (world st1') = phaseApprovals (world st1)"
    by (simp add: st1'_def)
  have a2: "phaseApprovals (world st2) = phaseApprovals (world st1')"
    by (simp add: st2_def iterationReviews_approvals)
  have am: "isPhaseApproval (SrcSystem, msg)" by (simp add: msg_def)
  have r1: "minorRemediations (world st1) = minorRemediations (world st)"
    by (simp add: st1_def iterationReviews_remediations)
  have r1': "minorRemediations (world st1') = minorRemediations (world st1) + 1"
    by (simp add: st1'_def)
  have r2: "minorRemediations (world st2) = minorRemediations (world st1')"
    by (simp add: st2_def iterationReviews_remediations)
  have rm: "\<not> isMinorRemediation (SrcSystem, msg)" by (simp add: msg_def)
  show ?thesis
    unfolding lp1 using c1 c1' c2 a1 a1' a2 am r1 r1' r2 rm
    by (simp add: incorporationCalls_def msg_def)
qed

text \<open>
  The loop over the phases: each phase enters its loop with the budget unspent, whatever
  the phases before it have spent.
\<close>

lemma buildPhases_minor_then_no_major:
  assumes max: "2 \<le> maxBuildIterations env"
    and all: "\<forall>j<length phases. minorThenNoMajor env r (k + j)"
  shows "fst (buildPhases env b r k phases isFirst w)
       \<and> incorporationCalls (snd (snd (buildPhases env b r k phases isFirst w)))
           = incorporationCalls w + length phases
       \<and> phaseApprovals (snd (snd (buildPhases env b r k phases isFirst w)))
           = phaseApprovals w + length phases
       \<and> minorRemediations (snd (snd (buildPhases env b r k phases isFirst w)))
           = minorRemediations w + length phases"
  using all
proof (induction phases arbitrary: k isFirst w)
  case Nil
  show ?case by simp
next
  case (Cons phase phases)
  let ?st0 = "\<lparr>world = logToFeatureHistory SrcClaude (BuilderCompletedPhase (number phase))
                 (emit (RunClaude BuildSite b (number phase > 1))
                    (logToFeatureHistory SrcSystem
                       (StartingPhase (number phase) (description phase)) w)),
               isFirstReviewerCheck = isFirst, minorIssuesIteration = False\<rparr>"
  let ?P = "phaseReviewLoop env b r k phase 1 ?st0"
  from Cons.prems have here: "minorThenNoMajor env r k" by force
  from Cons.prems have rest: "\<forall>j<length phases. minorThenNoMajor env r (Suc k + j)" by force
  from here have ok: "cc_success (buildRun env k)" by (simp add: minorThenNoMajor_def)
  from here obtain s2 where m2: "mergedAt env r k 2 s2" and s2: "s2 = SevNone \<or> s2 = SevMinor"
    by (auto simp: minorThenNoMajor_def)
  have loop: "fst ?P
       \<and> incorporationCalls (world (snd ?P)) = incorporationCalls (world ?st0) + 1
       \<and> phaseApprovals (world (snd ?P)) = phaseApprovals (world ?st0) + 1
       \<and> minorRemediations (world (snd ?P)) = minorRemediations (world ?st0) + 1"
    using here phaseReviewLoop_minor_then_no_major [OF max _ _ _ m2 s2, of ?st0 b phase]
    by (simp add: minorThenNoMajor_def)
  have step: "buildPhases env b r k (phase # phases) isFirst w
      = buildPhases env b r (Suc k) phases (isFirstReviewerCheck (snd ?P)) (world (snd ?P))"
    using ok loop by (simp add: runClaudeCodeWithProgress_def case_prod_beta Let_def)
  have c0: "incorporationCalls (world ?st0) = incorporationCalls w"
    by (simp add: incorporationCalls_def)
  have a0: "phaseApprovals (world ?st0) = phaseApprovals w" by simp
  have r0: "minorRemediations (world ?st0) = minorRemediations w" by simp
  show ?case
    unfolding step
    using Cons.IH [OF rest, of "isFirstReviewerCheck (snd ?P)" "world (snd ?P)"] loop c0 a0 r0
    by simp
qed

text \<open>A minor-only review that finds the budget spent, at any iteration.\<close>

lemma phaseReviewLoop_minor_spent:
  assumes le: "i \<le> maxBuildIterations env"
    and spent: "minorIssuesIteration st"
    and d: "diffHasChanges env k i"
    and m: "mergedAt env r k i SevMinor"
  shows "fst (phaseReviewLoop env b r k phase i st)
       \<and> incorporationCalls (world (snd (phaseReviewLoop env b r k phase i st)))
           = incorporationCalls (world st)
       \<and> hd (sf_history (statusFile (world (snd (phaseReviewLoop env b r k phase i st)))))
           = (SrcSystem, PhaseApprovedMinorLogged (number phase) i)"
proof -
  let ?R = "iterationReviews env r k i st"
  have sev: "mergedSeverity (fst (fst ?R), snd (fst ?R)) = SevMinor"
    using m by (simp add: mergedAt_def)
  have f: "minorIssuesIteration (snd ?R)" using spent by (simp add: iterationReviews_effect)
  have it: "buildIteration env b r k phase i st
      = (BreakLoop, (snd ?R)\<lparr>world := logToFeatureHistory SrcSystem
                        (PhaseApprovedMinorLogged (number phase) i) (world (snd ?R))\<rparr>)"
    unfolding buildIteration_reviews [OF d]
    by (rule afterReviews_minor_spent [OF sev f])
  have lp: "phaseReviewLoop env b r k phase i st
      = (True, (snd ?R)\<lparr>world := logToFeatureHistory SrcSystem
                        (PhaseApprovedMinorLogged (number phase) i) (world (snd ?R))\<rparr>)"
    using le by (subst phaseReviewLoop.simps) (simp add: it)
  show ?thesis
    unfolding lp using iterationReviews_effect(2) [of env r k i st]
    by (simp add: incorporationCalls_def)
qed

text \<open>A minor-only review that finds the budget unspent, at any iteration below the bound.\<close>

lemma buildIteration_minor_first:
  assumes lt: "i < maxBuildIterations env"
    and fresh: "\<not> minorIssuesIteration st"
    and d: "diffHasChanges env k i"
    and m: "mergedAt env r k i SevMinor"
    and fb: "cc_success (feedbackRun env k i)"
  shows "fst (buildIteration env b r k phase i st) = ContinueLoop
       \<and> minorIssuesIteration (snd (buildIteration env b r k phase i st))
       \<and> incorporationCalls (world (snd (buildIteration env b r k phase i st)))
           = incorporationCalls (world st) + 1"
proof -
  let ?R = "iterationReviews env r k i st"
  have sev: "mergedSeverity (fst (fst ?R), snd (fst ?R)) = SevMinor"
    using m by (simp add: mergedAt_def)
  have f: "\<not> minorIssuesIteration (snd ?R)" using fresh by (simp add: iterationReviews_effect)
  show ?thesis
    unfolding buildIteration_reviews [OF d] afterReviews_minor_first [OF sev f lt fb]
    using iterationReviews_effect(2) [of env r k i st]
    by (simp add: incorporationCalls_def)
qed

text \<open>
  At the bound the minor issues get no iteration: the loop ends with the warning that
  issues remain, and the BUILDER is not called.
\<close>

lemma buildIteration_minor_at_bound:
  assumes eq: "i = maxBuildIterations env"
    and fresh: "\<not> minorIssuesIteration st"
    and d: "diffHasChanges env k i"
    and m: "mergedAt env r k i SevMinor"
  shows "fst (buildIteration env b r k phase i st) = BreakLoop
       \<and> incorporationCalls (world (snd (buildIteration env b r k phase i st)))
           = incorporationCalls (world st)
       \<and> hd (sf_history (statusFile (world (snd (buildIteration env b r k phase i st)))))
           = (SrcSystem, MaxIterationsReachedForPhase (maxBuildIterations env) (number phase))"
proof -
  let ?R = "iterationReviews env r k i st"
  have sev: "mergedSeverity (fst (fst ?R), snd (fst ?R)) = SevMinor"
    using m by (simp add: mergedAt_def)
  have f: "\<not> minorIssuesIteration (snd ?R)" using fresh by (simp add: iterationReviews_effect)
  show ?thesis
    unfolding buildIteration_reviews [OF d]
    using sev f eq iterationReviews_effect(2) [of env r k i st]
    by (simp add: afterReviews_def mergedSeverity_def Let_def incorporationCalls_def
        split: if_splits)
qed

text \<open>A spent budget stays spent while the phase lasts.\<close>

lemma afterReviews_flag_kept:
  "minorIssuesIteration st \<Longrightarrow> minorIssuesIteration (snd (afterReviews env b k phase i p c st))"
  by (simp add: afterReviews_def Let_def case_prod_beta)

lemma buildIteration_flag_kept:
  assumes "minorIssuesIteration st"
  shows "minorIssuesIteration (snd (buildIteration env b r k phase i st))"
  using assms
  by (simp add: buildIteration_def case_prod_beta afterReviews_flag_kept claudeReviewStep_effect)

text \<open>
  The budget bounds the entries: the entries written so far and what is left of the
  budget never add up to more than before an iteration.
\<close>

lemma afterReviews_budget:
  "minorRemediations (world (snd (afterReviews env b k phase i p c st)))
     + minorBudget (snd (afterReviews env b k phase i p c st))
   \<le> minorRemediations (world st) + minorBudget st"
  by (simp add: afterReviews_def Let_def case_prod_beta runClaudeCodeWithProgress_def
      minorBudget_def)

lemma buildIteration_budget:
  "minorRemediations (world (snd (buildIteration env b r k phase i st)))
     + minorBudget (snd (buildIteration env b r k phase i st))
   \<le> minorRemediations (world st) + minorBudget st"
proof (cases "hasChanges (fst (getStagedDiff env k i (world st)))")
  case False
  then show ?thesis by (simp add: buildIteration_def case_prod_beta minorBudget_def)
next
  case True
  let ?w2 = "snd (primaryReviewStep env (diff (fst (getStagedDiff env k i (world st)))) k i
                (emit GitStagedDiff (world st)))"
  let ?st3 = "snd (claudeReviewStep env k i r (st\<lparr>world := ?w2\<rparr>))"
  have a: "minorRemediations (world ?st3) = minorRemediations (world st)"
    by (simp add: claudeReviewStep_remediations primaryReviewStep_remediations)
  have b: "minorBudget ?st3 = minorBudget st"
    by (simp add: minorBudget_def claudeReviewStep_effect)
  show ?thesis
    using True afterReviews_budget [of env b k phase i _ _ ?st3] a b
    by (simp add: buildIteration_def case_prod_beta)
qed

lemma phaseReviewLoop_budget:
  "minorRemediations (world (snd (phaseReviewLoop env b r k phase i st)))
     + minorBudget (snd (phaseReviewLoop env b r k phase i st))
   \<le> minorRemediations (world st) + minorBudget st"
proof (induction env b r k phase i st rule: phaseReviewLoop.induct)
  case (1 env b r k phase i st)
  show ?case
  proof (cases "i \<le> maxBuildIterations env")
    case False
    then have "phaseReviewLoop env b r k phase i st = (True, st)"
      by (subst phaseReviewLoop.simps) simp
    then show ?thesis by simp
  next
    case True
    obtain step st' where it: "buildIteration env b r k phase i st = (step, st')"
      by (cases "buildIteration env b r k phase i st")
    have bd: "minorRemediations (world st') + minorBudget st'
        \<le> minorRemediations (world st) + minorBudget st"
      using buildIteration_budget [of env b r k phase i st] by (simp add: it)
    show ?thesis
    proof (cases step)
      case BreakLoop
      have "phaseReviewLoop env b r k phase i st = (True, st')"
        using True it BreakLoop by (subst phaseReviewLoop.simps) simp
      with bd show ?thesis by simp
    next
      case ReturnFalse
      have "phaseReviewLoop env b r k phase i st = (False, st')"
        using True it ReturnFalse by (subst phaseReviewLoop.simps) simp
      with bd show ?thesis by simp
    next
      case ContinueLoop
      have eq: "phaseReviewLoop env b r k phase i st = phaseReviewLoop env b r k phase (i + 1) st'"
        using True it ContinueLoop by (subst phaseReviewLoop.simps) simp
      from "1.IH" [OF True it [symmetric] ContinueLoop] bd
      show ?thesis unfolding eq by simp
    qed
  qed
qed

lemma buildPhases_budget:
  "minorRemediations (snd (snd (buildPhases env b r k phases isFirst w)))
     \<le> minorRemediations w + length phases"
proof (induction phases arbitrary: k isFirst w)
  case Nil
  show ?case by simp
next
  case (Cons phase phases)
  let ?st0 = "\<lparr>world = logToFeatureHistory SrcClaude (BuilderCompletedPhase (number phase))
                 (emit (RunClaude BuildSite b (number phase > 1))
                    (logToFeatureHistory SrcSystem
                       (StartingPhase (number phase) (description phase)) w)),
               isFirstReviewerCheck = isFirst, minorIssuesIteration = False\<rparr>"
  let ?P = "phaseReviewLoop env b r k phase 1 ?st0"
  have "minorRemediations (world (snd ?P)) + minorBudget (snd ?P)
      \<le> minorRemediations (world ?st0) + minorBudget ?st0"
    by (rule phaseReviewLoop_budget)
  then have loop: "minorRemediations (world (snd ?P)) \<le> minorRemediations w + 1"
    by (simp add: minorBudget_def)
  show ?case
  proof (cases "cc_success (buildRun env k)")
    case False
    then show ?thesis
      by (simp add: runClaudeCodeWithProgress_def case_prod_beta Let_def)
  next
    case True
    show ?thesis
    proof (cases "fst ?P")
      case False
      with True have "buildPhases env b r k (phase # phases) isFirst w
          = (False, isFirstReviewerCheck (snd ?P), world (snd ?P))"
        by (simp add: runClaudeCodeWithProgress_def case_prod_beta Let_def)
      with loop show ?thesis by simp
    next
      case goOn: True
      with True have "buildPhases env b r k (phase # phases) isFirst w
          = buildPhases env b r (Suc k) phases (isFirstReviewerCheck (snd ?P)) (world (snd ?P))"
        by (simp add: runClaudeCodeWithProgress_def case_prod_beta Let_def)
      with loop Cons.IH [of "Suc k" "isFirstReviewerCheck (snd ?P)" "world (snd ?P)"]
      show ?thesis by simp
    qed
  qed
qed

lemma minorEveryTime_merged:
  "mergedAt (agentEnv plan changed minorEveryTime) r k i SevMinor"
  by (simp add: mergedAt_def iterationReviews_def primaryReviewStep_def claudeReviewStep_def
      runCodeReview_def runClaudeCodeWithProgress_def extractIntentSummary_def
      agentEnv_fields minorEveryTime_def verdict_texts mergedSeverity_def hasAnyMajorIssues_def
      hasOnlyMinorIssues_def case_prod_beta Let_def)

text \<open>
  Claim C6. In the build loop the minor issues of a phase get one iteration, and only one.

  \<^item> In every run of the loop over the phases, whatever the builds and the reviews give,
    the history gains at most one entry "Minor issues only - one iteration to address"
    for each phase.
  \<^item> When every phase is built and reviewed MINOR in its first iteration and NONE or MINOR
    in its second (the bound on the iterations being at least 2, the diffs showing
    changes and the BUILDER taking the feedback), the build runs through all the phases
    with exactly one incorporation call, one such entry and one approval in the history
    for each phase: each phase, the first as any later one, enters its loop with its
    iteration for minor issues unspent.
  \<^item> For the loop of one phase, entered with the iteration unspent, under the same
    conditions: exactly one incorporation call is made and the loop ends with the phase
    approved after 2 iterations when the second review is NONE, and approved with the
    minor issues left to the log when it is MINOR.
  \<^item> At any iteration within the bound, a minor-only review that finds the iteration
    spent ends the loop with no incorporation call and the phase approved, the minor
    issues left to the log.
  \<^item> At any iteration below the bound, a minor-only review that finds the iteration
    unspent spends it: the incorporation call is made and the loop goes on.
  \<^item> Spent once, the iteration stays spent through every later iteration of the phase.
\<close>

theorem minor_gets_one_remediation:
  "minorRemediations (snd (snd (buildPhases env b r k phases isFirst w)))
     \<le> minorRemediations w + length phases
   \<and> (2 \<le> maxBuildIterations env \<and> (\<forall>j<length phases. minorThenNoMajor env r (k + j)) \<longrightarrow>
        fst (buildPhases env b r k phases isFirst w)
        \<and> incorporationCalls (snd (snd (buildPhases env b r k phases isFirst w)))
            = incorporationCalls w + length phases
        \<and> phaseApprovals (snd (snd (buildPhases env b r k phases isFirst w)))
            = phaseApprovals w + length phases
        \<and> minorRemediations (snd (snd (buildPhases env b r k phases isFirst w)))
            = minorRemediations w + length phases)
   \<and> (2 \<le> maxBuildIterations env
        \<and> diffHasChanges env k 1 \<and> diffHasChanges env k 2
        \<and> mergedAt env r k 1 SevMinor
        \<and> mergedAt env r k 2 s2 \<and> (s2 = SevNone \<or> s2 = SevMinor)
        \<and> cc_success (feedbackRun env k 1)
        \<and> \<not> minorIssuesIteration st \<longrightarrow>
        fst (phaseReviewLoop env b r k phase 1 st)
        \<and> incorporationCalls (world (snd (phaseReviewLoop env b r k phase 1 st)))
            = incorporationCalls (world st) + 1
        \<and> hd (sf_history (statusFile (world (snd (phaseReviewLoop env b r k phase 1 st)))))
            = (SrcSystem, if s2 = SevNone then PhaseApproved (number phase) 2
                          else PhaseApprovedMinorLogged (number phase) 2))
   \<and> (i \<le> maxBuildIterations env \<and> minorIssuesIteration st
        \<and> diffHasChanges env k i \<and> mergedAt env r k i SevMinor \<longrightarrow>
        fst (phaseReviewLoop env b r k phase i st)
        \<and> incorporationCalls (world (snd (phaseReviewLoop env b r k phase i st)))
            = incorporationCalls (world st)
        \<and> hd (sf_history (statusFile (world (snd (phaseReviewLoop env b r k phase i st)))))
            = (SrcSystem, PhaseApprovedMinorLogged (number phase) i))
   \<and> (i < maxBuildIterations env \<and> \<not> minorIssuesIteration st
        \<and> diffHasChanges env k i \<and> mergedAt env r k i SevMinor
        \<and> cc_success (feedbackRun env k i) \<longrightarrow>
        fst (buildIteration env b r k phase i st) = ContinueLoop
        \<and> minorIssuesIteration (snd (buildIteration env b r k phase i st))
        \<and> incorporationCalls (world (snd (buildIteration env b r k phase i st)))
            = incorporationCalls (world st) + 1)
   \<and> (minorIssuesIteration st \<longrightarrow>
        minorIssuesIteration (snd (buildIteration env b r k phase i st)))"
proof (intro conjI impI)
  show "minorRemediations (snd (snd (buildPhases env b r k phases isFirst w)))
     \<le> minorRemediations w + length phases"
    by (rule buildPhases_budget)
qed (use buildPhases_minor_then_no_major [of env phases r k b isFirst w]
     phaseReviewLoop_minor_then_no_major [of env k r s2 st b phase]
     phaseReviewLoop_minor_spent [of i env st k r b phase]
     buildIteration_minor_first [of i env st k r b phase]
     buildIteration_flag_kept [of st env b r k phase i] in simp_all)

theorem minor_gets_one_remediation_witness:
  "minorThenNoMajor (agentEnv None changed minorThenNone) 1 0
   \<and> minorThenNoMajor (agentEnv None changed minorThenNone) 1 1
   \<and> fst (buildPhases (agentEnv None changed minorThenNone) 0 1 0 [phaseOne, phaseTwo] True
           (worldAt Building))
   \<and> incorporationCalls (snd (snd (buildPhases (agentEnv None changed minorThenNone) 0 1 0
           [phaseOne, phaseTwo] True (worldAt Building)))) = 2
   \<and> phaseApprovals (snd (snd (buildPhases (agentEnv None changed minorThenNone) 0 1 0
           [phaseOne, phaseTwo] True (worldAt Building)))) = 2
   \<and> minorRemediations (snd (snd (buildPhases (agentEnv None changed minorThenNone) 0 1 0
           [phaseOne, phaseTwo] True (worldAt Building)))) = 2
   \<and> minorThenNoMajor (agentEnv None changed minorEveryTime) 1 0
   \<and> minorThenNoMajor (agentEnv None changed minorEveryTime) 1 1
   \<and> fst (buildPhases (agentEnv None changed minorEveryTime) 0 1 0 [phaseOne, phaseTwo] True
           (worldAt Building))
   \<and> incorporationCalls (snd (snd (buildPhases (agentEnv None changed minorEveryTime) 0 1 0
           [phaseOne, phaseTwo] True (worldAt Building)))) = 2
   \<and> phaseApprovals (snd (snd (buildPhases (agentEnv None changed minorEveryTime) 0 1 0
           [phaseOne, phaseTwo] True (worldAt Building)))) = 2
   \<and> minorRemediations (snd (snd (buildPhases (agentEnv None changed minorEveryTime) 0 1 0
           [phaseOne, phaseTwo] True (worldAt Building)))) \<le> 2
   \<and> fst (phaseReviewLoop (agentEnv None changed minorThenNone) 0 1 0 phaseOne 1 startState)
   \<and> incorporationCalls (world (snd (phaseReviewLoop (agentEnv None changed minorThenNone)
         0 1 0 phaseOne 1 startState))) = 1
   \<and> hd (sf_history (statusFile (world (snd (phaseReviewLoop
         (agentEnv None changed minorThenNone) 0 1 0 phaseOne 1 startState)))))
       = (SrcSystem, PhaseApproved 1 2)
   \<and> mergedAt (agentEnv None changed minorEveryTime) 1 0 3 SevMinor
   \<and> fst (phaseReviewLoop (agentEnv None changed minorEveryTime) 0 1 0 phaseOne 3
           (startState\<lparr>minorIssuesIteration := True\<rparr>))
   \<and> incorporationCalls (world (snd (phaseReviewLoop (agentEnv None changed minorEveryTime)
         0 1 0 phaseOne 3 (startState\<lparr>minorIssuesIteration := True\<rparr>)))) = 0
   \<and> hd (sf_history (statusFile (world (snd (phaseReviewLoop
         (agentEnv None changed minorEveryTime) 0 1 0 phaseOne 3
         (startState\<lparr>minorIssuesIteration := True\<rparr>))))))
       = (SrcSystem, PhaseApprovedMinorLogged 1 3)
   \<and> fst (buildIteration (agentEnv None changed minorEveryTime) 0 1 0 phaseOne 3 startState)
       = ContinueLoop
   \<and> minorIssuesIteration (snd (buildIteration (agentEnv None changed minorEveryTime)
         0 1 0 phaseOne 3 startState))
   \<and> incorporationCalls (world (snd (buildIteration (agentEnv None changed minorEveryTime)
         0 1 0 phaseOne 3 startState))) = 1
   \<and> minorIssuesIteration (snd (buildIteration (agentEnv None changed minorEveryTime)
         0 1 0 phaseOne 4 (snd (buildIteration (agentEnv None changed minorEveryTime)
         0 1 0 phaseOne 3 startState))))"
proof -
  let ?A = "agentEnv None changed minorThenNone"
  let ?M = "agentEnv None changed minorEveryTime"
  let ?spent = "startState\<lparr>minorIssuesIteration := True\<rparr>"
  have sc: "minorThenNoMajor ?A 1 k" for k
    using changed_diff [of None minorThenNone] agent_merged [of None 1 k]
    by (simp add: minorThenNoMajor_def agentEnv_fields okRun_def)
  have scM: "minorThenNoMajor ?M 1 k" for k
    using changed_diff [of None minorEveryTime] minorEveryTime_merged [of None 1 k]
    by (simp add: minorThenNoMajor_def agentEnv_fields okRun_def)
  have mxA: "2 \<le> maxBuildIterations ?A" by (simp add: agentEnv_fields)
  have mxM: "2 \<le> maxBuildIterations ?M" by (simp add: agentEnv_fields)
  have fbA: "cc_success (feedbackRun ?A 0 1)" by (simp add: agentEnv_fields okRun_def)
  have fbM: "cc_success (feedbackRun ?M 0 3)" by (simp add: agentEnv_fields okRun_def)
  have z: "incorporationCalls (worldAt Building) = 0" "phaseApprovals (worldAt Building) = 0"
    "minorRemediations (worldAt Building) = 0"
    by (simp_all add: worldAt_def incorporationCalls_def phaseApprovals_def
        minorRemediations_def)
  have zs: "incorporationCalls (world startState) = 0" "\<not> minorIssuesIteration startState"
    "incorporationCalls (world ?spent) = 0" "minorIssuesIteration ?spent"
    by (simp_all add: startState_def worldAt_def incorporationCalls_def)
  have hA: "2 \<le> maxBuildIterations ?A
      \<and> (\<forall>j<length [phaseOne, phaseTwo]. minorThenNoMajor ?A 1 (0 + j))"
    using mxA sc by simp
  have hM: "2 \<le> maxBuildIterations ?M
      \<and> (\<forall>j<length [phaseOne, phaseTwo]. minorThenNoMajor ?M 1 (0 + j))"
    using mxM scM by simp
  have hP: "2 \<le> maxBuildIterations ?A
        \<and> diffHasChanges ?A 0 1 \<and> diffHasChanges ?A 0 2
        \<and> mergedAt ?A 1 0 1 SevMinor
        \<and> mergedAt ?A 1 0 2 SevNone \<and> (SevNone = SevNone \<or> SevNone = SevMinor)
        \<and> cc_success (feedbackRun ?A 0 1)
        \<and> \<not> minorIssuesIteration startState"
    using mxA changed_diff [of None minorThenNone] agent_merged [of None 1 0] fbA zs(2)
    by simp
  have hS: "3 \<le> maxBuildIterations ?M \<and> minorIssuesIteration ?spent
        \<and> diffHasChanges ?M 0 3 \<and> mergedAt ?M 1 0 3 SevMinor"
    using changed_diff [of None minorEveryTime] minorEveryTime_merged [of None 1 0 3] zs(4)
    by (simp add: agentEnv_fields)
  have hF: "3 < maxBuildIterations ?M \<and> \<not> minorIssuesIteration startState
        \<and> diffHasChanges ?M 0 3 \<and> mergedAt ?M 1 0 3 SevMinor
        \<and> cc_success (feedbackRun ?M 0 3)"
    using changed_diff [of None minorEveryTime] minorEveryTime_merged [of None 1 0 3] zs(2) fbM
    by (simp add: agentEnv_fields)
  note T = minor_gets_one_remediation
  have bud: "minorRemediations (snd (snd (buildPhases ?M 0 1 0 [phaseOne, phaseTwo] True
           (worldAt Building)))) \<le> minorRemediations (worldAt Building)
             + length [phaseOne, phaseTwo]"
    by (rule T [THEN conjunct1])
  note allM = T [where env = ?M and b = 0 and r = 1 and k = 0 and phases = "[phaseOne, phaseTwo]"
      and isFirst = True and w = "worldAt Building", THEN conjunct2, THEN conjunct1, THEN mp,
      OF hM]
  note all = T [where env = ?A and b = 0 and r = 1 and k = 0 and phases = "[phaseOne, phaseTwo]"
      and isFirst = True and w = "worldAt Building", THEN conjunct2, THEN conjunct1, THEN mp,
      OF hA]
  note one = T [where env = ?A and b = 0 and r = 1 and k = 0 and ?s2.0 = SevNone
      and st = startState and phase = phaseOne,
      THEN conjunct2, THEN conjunct2, THEN conjunct1, THEN mp, OF hP]
  note spent = T [where env = ?M and b = 0 and r = 1 and k = 0 and i = 3
      and st = ?spent and phase = phaseOne,
      THEN conjunct2, THEN conjunct2, THEN conjunct2, THEN conjunct1, THEN mp, OF hS]
  note first = T [where env = ?M and b = 0 and r = 1 and k = 0 and i = 3
      and st = startState and phase = phaseOne,
      THEN conjunct2, THEN conjunct2, THEN conjunct2, THEN conjunct2, THEN conjunct1, THEN mp,
      OF hF]
  note kept = T [where env = ?M and b = 0 and r = 1 and k = 0 and i = 4
      and st = "snd (buildIteration ?M 0 1 0 phaseOne 3 startState)" and phase = phaseOne,
      THEN conjunct2, THEN conjunct2, THEN conjunct2, THEN conjunct2, THEN conjunct2, THEN mp,
      OF first [THEN conjunct2, THEN conjunct1]]
  have n1: "number phaseOne = 1" by (simp add: phaseOne_def)
  show ?thesis
    using sc [of 0] sc [of 1] scM [of 0] scM [of 1] bud all allM one spent first kept hS
    unfolding z zs n1 by simp
qed

text \<open>
  Claim C8. A plan text without a header line yields the empty list of phases, and a build
  started on it returns false with the status file as it was: the write of the status
  building is not reached, no session id is drawn and no review is asked for; when the
  pre-flight checks pass, the only effect is the warning that no phases were found.
\<close>

theorem no_phases_aborts_build:
  assumes "planFile env = Some c" and "\<forall>l\<in>set (split_nl c). matchPhaseHeader l = None"
  shows "parsePlanPhasesFromContent c = []
       \<and> \<not> fst (executeBuildPhase env feature w)
       \<and> statusFile (snd (executeBuildPhase env feature w)) = statusFile w
       \<and> nextUuid (snd (executeBuildPhase env feature w)) = nextUuid w
       \<and> filter isReviewCall (trace (snd (executeBuildPhase env feature w)))
           = filter isReviewCall (trace w)
       \<and> (claudeCodeInstalled env \<and> openAIKeyConfigured env \<and> gitAvailable env
            \<and> \<not> falsy (planPath feature)
          \<longrightarrow> snd (executeBuildPhase env feature w) = emit (ShowWarning NoPhasesFound) w)"
proof -
  have e: "parsePlanPhasesFromContent c = []"
    using assms(2) by (rule no_headers_no_phases)
  show ?thesis
    using e assms(1)
    by (auto simp: executeBuildPhase_def ensureClaudeCodeInstalled_def
        ensureReviewerConfigured_def ensureOpenAIConfigured_def Let_def split: if_splits)
qed

theorem no_phases_aborts_build_witness:
  "planFile (agentEnv (Some prosePlan) changed minorThenNone) = Some prosePlan
   \<and> list_all (\<lambda>l. matchPhaseHeader l = None) (split_nl prosePlan)
   \<and> parsePlanPhasesFromContent prosePlan = []
   \<and> \<not> fst (executeBuildPhase (agentEnv (Some prosePlan) changed minorThenNone) newFeature
             (worldAt ReadyForBuild))
   \<and> snd (executeBuildPhase (agentEnv (Some prosePlan) changed minorThenNone) newFeature
             (worldAt ReadyForBuild))
       = emit (ShowWarning NoPhasesFound) (worldAt ReadyForBuild)
   \<and> sf_status (statusFile (snd (executeBuildPhase
         (agentEnv (Some prosePlan) changed minorThenNone) newFeature (worldAt ReadyForBuild))))
       = ReadyForBuild"
proof -
  have p: "planFile (agentEnv (Some prosePlan) changed minorThenNone) = Some prosePlan"
    by (simp add: agentEnv_fields)
  have nh: "\<forall>l\<in>set (split_nl prosePlan). matchPhaseHeader l = None"
    by (simp add: prosePlan_def header_eval)
  have pp: "\<not> falsy (planPath newFeature)"
    by (simp add: newFeature_def falsy_def str_def)
  from no_phases_aborts_build [OF p nh, of newFeature "worldAt ReadyForBuild"] p nh pp
  show ?thesis by (simp add: agentEnv_fields list_all_iff worldAt_def)
qed

text \<open>
  Claim C10. When one of the three git commands of \<open>getStagedDiff\<close> fails, the result is
  the empty diff with \<open>hasChanges\<close> false; in the review loop of a phase the iteration
  then logs that no changes were detected and leaves the loop, the build goes on as if
  the phase were complete, and no review is asked for in that iteration.
\<close>

theorem git_failure_skips_review:
  assumes "gitAddAll env k i = None \<or> gitDiffStaged env k i = None
           \<or> gitDiffNameOnly env k i = None"
    and "i \<le> maxBuildIterations env"
  shows "fst (getStagedDiff env k i (world st))
           = \<lparr>diff = [], filesChanged = [], hasChanges = False\<rparr>
       \<and> phaseReviewLoop env b r k phase i st
           = (True, st\<lparr>world := logToFeatureHistory SrcSystem (NoChangesDetected (number phase))
                                  (emit GitStagedDiff (world st))\<rparr>)
       \<and> reviewCalls (world (snd (phaseReviewLoop env b r k phase i st)))
           = reviewCalls (world st)"
proof -
  have d: "getStagedDiff env k i (world st) = (noChanges, emit GitStagedDiff (world st))"
    using assms(1) by (rule getStagedDiff_failure)
  have it: "buildIteration env b r k phase i st
      = (BreakLoop, st\<lparr>world := logToFeatureHistory SrcSystem (NoChangesDetected (number phase))
                                  (emit GitStagedDiff (world st))\<rparr>)"
    by (simp add: buildIteration_def d noChanges_def)
  have lp: "phaseReviewLoop env b r k phase i st
      = (True, st\<lparr>world := logToFeatureHistory SrcSystem (NoChangesDetected (number phase))
                                  (emit GitStagedDiff (world st))\<rparr>)"
    using assms(2) by (subst phaseReviewLoop.simps) (simp add: it)
  show ?thesis
    unfolding lp by (simp add: d noChanges_def reviewCalls_def)
qed

theorem git_failure_skips_review_witness:
  "gitAddAll (agentEnv (Some onePhasePlan) gitBroken minorThenNone) 0 1 = None
   \<and> fst (getStagedDiff (agentEnv (Some onePhasePlan) gitBroken minorThenNone) 0 1
           (world startState))
       = \<lparr>diff = [], filesChanged = [], hasChanges = False\<rparr>
   \<and> fst (phaseReviewLoop (agentEnv (Some onePhasePlan) gitBroken minorThenNone) 0 1 0
           phaseOne 1 startState)
   \<and> reviewCalls (world (snd (phaseReviewLoop
         (agentEnv (Some onePhasePlan) gitBroken minorThenNone) 0 1 0 phaseOne 1 startState)))
       = 0
   \<and> hd (sf_history (statusFile (world (snd (phaseReviewLoop
         (agentEnv (Some onePhasePlan) gitBroken minorThenNone) 0 1 0 phaseOne 1 startState)))))
       = (SrcSystem, NoChangesDetected 1)"
proof -
  have g: "gitAddAll (agentEnv (Some onePhasePlan) gitBroken minorThenNone) 0 1 = None"
    by (simp add: agentEnv_fields gitBroken_def)
  then have g': "gitAddAll (agentEnv (Some onePhasePlan) gitBroken minorThenNone) 0 1 = None
      \<or> gitDiffStaged (agentEnv (Some onePhasePlan) gitBroken minorThenNone) 0 1 = None
      \<or> gitDiffNameOnly (agentEnv (Some onePhasePlan) gitBroken minorThenNone) 0 1 = None"
    by simp
  have mx: "1 \<le> maxBuildIterations (agentEnv (Some onePhasePlan) gitBroken minorThenNone)"
    by (simp add: agentEnv_fields)
  have z: "reviewCalls (world startState) = 0"
    by (simp add: startState_def worldAt_def reviewCalls_def)
  from git_failure_skips_review [OF g' mx, where st = startState and b = 0 and r = 1
      and phase = phaseOne] g
  show ?thesis
    by (simp add: phaseOne_def reviewCalls_def startState_def worldAt_def)
qed

section \<open>Properties of the reviewer sessions\<close>

lemma keeps_refl [simp]: "keeps R w w"
  by (simp add: keeps_def)

lemma keeps_trans: "keeps R w w1 \<Longrightarrow> keeps R w1 w2 \<Longrightarrow> keeps R w w2"
  by (auto simp: keeps_def)

lemma wellFormed_log [simp]: "wellFormed R (logToFeatureHistory s m w) = wellFormed R w"
  by (simp add: wellFormed_def sessionsBelow_def)

lemma wellFormed_update [simp]: "wellFormed R (updateFeatureStatus t s m w) = wellFormed R w"
  by (simp add: wellFormed_def sessionsBelow_def)

lemma wellFormed_emit_plain [simp]: "runOf e = None \<Longrightarrow> wellFormed R (emit e w) = wellFormed R w"
  by (simp add: wellFormed_def sessionsBelow_def)

lemma wellFormed_emit_run [simp]:
  "wellFormed R (emit (RunClaude site sid res) w) =
     (wellFormed R w \<and> sid < nextUuid w
      \<and> (R site \<longrightarrow> \<not> res \<and> \<not> List.member (sessionsOf (trace w)) sid))"
  by (auto simp: wellFormed_def sessionsBelow_def)

lemma below_Suc:
  "list_all (\<lambda>sid. sid < n) xs \<Longrightarrow> list_all (\<lambda>sid. sid < Suc n) xs"
  by (induction xs) auto

lemma below_not_member:
  "list_all (\<lambda>sid. sid < n) xs \<Longrightarrow> (n::nat) \<notin> set xs"
  by (induction xs) auto

lemma wellFormed_generate [simp]: "wellFormed R w \<Longrightarrow> wellFormed R (snd (generateSessionId w))"
  by (simp add: wellFormed_def sessionsBelow_def below_Suc)

lemma wellFormed_fresh_id [simp]: "wellFormed R w \<Longrightarrow> nextUuid w \<notin> set (sessionsOf (trace w))"
  by (auto simp: wellFormed_def sessionsBelow_def dest: below_not_member)

lemma keeps_ensureClaude: "keeps R w (snd (ensureClaudeCodeInstalled env w))"
  by (simp add: ensureClaudeCodeInstalled_def keeps_def)

lemma keeps_ensureReviewer: "keeps R w (snd (ensureReviewerConfigured env p w))"
  by (simp add: ensureReviewerConfigured_def ensureOpenAIConfigured_def
      ensureClaudeCodeInstalled_def keeps_def)

lemma keeps_reviewWithClaude: "keeps R w (snd (reviewWithClaude env site i w))"
  by (simp add: reviewWithClaude_def ensureClaudeCodeInstalled_def
      runClaudeCodeWithProgress_def parseClaudeReviewOutput_def case_prod_beta keeps_def)

lemma keeps_reviewArtifact: "keeps R w (snd (reviewArtifact env a p i w))"
  by (simp add: reviewArtifact_def reviewWithOpenAI_def keeps_reviewWithClaude)
     (simp add: keeps_def)

lemma keeps_reviewIteration:
  assumes "\<not> R (IncorporateSite a)" and "sid < nextUuid w"
  shows "keeps R w (snd (reviewIteration env a p sid i w))"
proof -
  define w1 where "w1 = snd (reviewArtifact env a p i w)"
  have k1: "keeps R w w1" by (simp add: w1_def keeps_reviewArtifact)
  then have lt: "sid < nextUuid w1" using assms(2) by (simp add: keeps_def)
  have "keeps R w1 (snd (reviewIteration env a p sid i w))"
    using assms(1) lt
    by (simp add: reviewIteration_def case_prod_beta Let_def runClaudeCodeWithProgress_def
        w1_def [symmetric] keeps_def)
  with k1 show ?thesis by (rule keeps_trans)
qed

lemma keeps_reviewIterations:
  assumes "\<not> R (IncorporateSite a)" and "sid < nextUuid w"
  shows "keeps R w (reviewIterations env a p sid i w)"
  using assms
proof (induction env a p sid i w rule: reviewIterations.induct)
  case (1 env a p sid i w)
  obtain st w' where st: "reviewIteration env a p sid i w = (st, w')"
    by (cases "reviewIteration env a p sid i w")
  have k: "keeps R w w'"
    using keeps_reviewIteration [where R = R and a = a and sid = sid and w = w and env = env
        and p = p and i = i] "1.prems" st by simp
  show ?case
  proof (cases "i \<le> maxReviewIterations env \<and> st = Continue")
    case True
    have lt: "sid < nextUuid w'" using k "1.prems"(2) by (simp add: keeps_def)
    have "keeps R w' (reviewIterations env a p sid (i + 1) w')"
      using "1.IH" [OF _ st [symmetric] _ "1.prems"(1) lt] True by simp
    with k have "keeps R w (reviewIterations env a p sid (i + 1) w')" by (rule keeps_trans)
    then show ?thesis
      using True st by (subst reviewIterations.simps) simp
  next
    case False
    then show ?thesis
      using k st by (subst reviewIterations.simps) (auto split: LoopStep.splits)
  qed
qed

lemma keeps_generateAndReview:
  assumes "\<not> R (IncorporateSite a)"
  shows "keeps R w (snd (generateAndReview env a p target w))"
proof -
  define w2 where "w2 = emit (RunClaude (GenerateSite a) (nextUuid w) False)
      (snd (generateSessionId (logToFeatureHistory SrcSystem (StartingGeneration a) w)))"
  have k2: "keeps R w w2" by (simp add: w2_def keeps_def)
  define w3 where "w3 = logToFeatureHistory SrcClaude (GeneratedInitial a) w2"
  have k3: "keeps R w w3" using k2 by (simp add: w3_def keeps_def)
  have lt: "nextUuid w < nextUuid w3" by (simp add: w3_def w2_def)
  have k4: "keeps R w3 (reviewIterations env a p (nextUuid w) 1 w3)"
    using keeps_reviewIterations [where R = R and a = a and sid = "nextUuid w" and w = w3]
      assms lt by simp
  have k5: "keeps R w (reviewIterations env a p (nextUuid w) 1 w3)"
    using k3 k4 by (rule keeps_trans)
  show ?thesis
    using k2 k5
    by (simp add: generateAndReview_def case_prod_beta Let_def runClaudeCodeWithProgress_def
        w2_def [symmetric] w3_def [symmetric] keeps_def)
qed

lemma keeps_generateSpec:
  assumes "\<not> R (IncorporateSite Spec)"
  shows "keeps R w (snd (generateSpecWithReviewLoop env feature w))"
proof -
  define w1 where "w1 = snd (ensureClaudeCodeInstalled env w)"
  define w2 where "w2 = snd (ensureReviewerConfigured env (reviewerProvider env) w1)"
  have k1: "keeps R w w1" by (simp add: w1_def keeps_ensureClaude)
  have k2: "keeps R w w2" using k1 keeps_ensureReviewer [of R w1] unfolding w2_def
    by (rule keeps_trans)
  have k3: "keeps R w (snd (generateAndReview env Spec (reviewerProvider env) Draft w2))"
    using k2 keeps_generateAndReview [where R = R and w = w2] assms
    by (blast intro: keeps_trans)
  show ?thesis
    using k1 k2 k3
    by (simp add: generateSpecWithReviewLoop_def case_prod_beta w1_def [symmetric]
        w2_def [symmetric] keeps_def)
qed

lemma keeps_generatePlan:
  assumes "\<not> R (IncorporateSite Plan)"
  shows "keeps R w (snd (generatePlanWithReviewLoop env feature w))"
proof -
  define w1 where "w1 = snd (ensureClaudeCodeInstalled env w)"
  define w2 where "w2 = snd (ensureReviewerConfigured env (reviewerProvider env) w1)"
  have k1: "keeps R w w1" by (simp add: w1_def keeps_ensureClaude)
  have k2: "keeps R w w2" using k1 keeps_ensureReviewer [of R w1] unfolding w2_def
    by (rule keeps_trans)
  have k3: "keeps R w (snd (generateAndReview env Plan (reviewerProvider env) PlanCreated w2))"
    using k2 keeps_generateAndReview [where R = R and w = w2] assms
    by (blast intro: keeps_trans)
  show ?thesis
    using k1 k2 k3
    by (simp add: generatePlanWithReviewLoop_def case_prod_beta w1_def [symmetric]
        w2_def [symmetric] keeps_def)
qed

lemma buildKeeps_refl [simp]: "buildKeeps R rsid st st"
  by (simp add: buildKeeps_def)

lemma buildKeeps_trans: "buildKeeps R rsid st st1 \<Longrightarrow> buildKeeps R rsid st1 st2 \<Longrightarrow> buildKeeps R rsid st st2"
  by (auto simp: buildKeeps_def)

lemma keeps_reviewCode: "keeps R w (snd (reviewCode env d k i p w))"
  by (simp add: reviewCode_def reviewCodeWithClaude_def reviewCodeWithOpenAI_def
      ensureClaudeCodeInstalled_def runClaudeCodeWithProgress_def parseClaudeReviewOutput_def
      case_prod_beta keeps_def)

lemma agentCalls_reviewCode:
  "agentCalls (trace (snd (reviewCode env d k i p w))) = agentCalls (trace w)"
  by (simp add: reviewCode_def reviewCodeWithClaude_def reviewCodeWithOpenAI_def
      ensureClaudeCodeInstalled_def runClaudeCodeWithProgress_def parseClaudeReviewOutput_def
      case_prod_beta)

lemma wellFormed_logCodeReview [simp]: "wellFormed R (logCodeReview s i r w) = wellFormed R w"
  by (simp add: logCodeReview_def)

lemma keeps_primaryReviewStep: "keeps R w (snd (primaryReviewStep env d k i w))"
  using keeps_reviewCode [of R w env d k i "reviewerProvider env"]
  by (simp add: primaryReviewStep_def case_prod_beta keeps_def)

lemma agentCalls_primaryReviewStep:
  "agentCalls (trace (snd (primaryReviewStep env d k i w))) = agentCalls (trace w)"
  by (simp add: primaryReviewStep_def case_prod_beta agentCalls_reviewCode)

lemma buildKeeps_claudeReviewStep:
  assumes "\<not> R AgentReviewerSite"
  shows "buildKeeps R rsid st (snd (claudeReviewStep env k i rsid st))"
  using assms
  by (auto simp: buildKeeps_def buildInvariant_def claudeReviewStep_def runCodeReview_def
      runClaudeCodeWithProgress_def case_prod_beta Let_def agentResumes_def)

lemma buildKeeps_afterReviews:
  assumes "\<not> R BuildIncorporateSite" and "b < nextUuid (world st)"
  shows "buildKeeps R rsid st (snd (afterReviews env b k phase i p c st))"
  using assms
  by (auto simp: buildKeeps_def buildInvariant_def afterReviews_def runClaudeCodeWithProgress_def
      case_prod_beta Let_def agentResumes_def)

lemma buildKeeps_world:
  assumes "keeps R (world st) w'"
    and "agentCalls (trace w') = agentCalls (trace (world st))"
  shows "buildKeeps R rsid st (st\<lparr>world := w'\<rparr>)"
  using assms by (auto simp: buildKeeps_def buildInvariant_def keeps_def agentResumes_def)

lemma buildKeeps_buildIteration:
  assumes "\<not> R AgentReviewerSite" and "\<not> R BuildIncorporateSite"
    and "b < nextUuid (world st)"
  shows "buildKeeps R rsid st (snd (buildIteration env b rsid k phase i st))"
proof -
  define d where "d = fst (getStagedDiff env k i (world st))"
  define w1 where "w1 = emit GitStagedDiff (world st)"
  define w2 where "w2 = snd (primaryReviewStep env (diff d) k i w1)"
  define st3 where "st3 = snd (claudeReviewStep env k i rsid (st\<lparr>world := w2\<rparr>))"
  have k1: "keeps R (world st) w1" by (simp add: w1_def keeps_def)
  have k2: "keeps R (world st) w2"
    using k1 keeps_primaryReviewStep [of R w1] unfolding w2_def by (rule keeps_trans)
  have a2: "agentCalls (trace w2) = agentCalls (trace (world st))"
    by (simp add: w2_def agentCalls_primaryReviewStep w1_def)
  have b2: "buildKeeps R rsid st (st\<lparr>world := w2\<rparr>)"
    using k2 a2 by (rule buildKeeps_world)
  have b3: "buildKeeps R rsid st st3"
    using b2 buildKeeps_claudeReviewStep [where R = R and st = "st\<lparr>world := w2\<rparr>", OF assms(1)]
    unfolding st3_def by (rule buildKeeps_trans)
  have lt: "b < nextUuid (world st3)"
    using b3 assms(3) by (simp add: buildKeeps_def)
  have b4: "buildKeeps R rsid st (snd (afterReviews env b k phase i p c st3))" for p c
    using b3 buildKeeps_afterReviews [where R = R and st = st3, OF assms(2) lt]
    by (rule buildKeeps_trans)
  have b0: "buildKeeps R rsid st
      (st\<lparr>world := logToFeatureHistory SrcSystem (NoChangesDetected (number phase)) w1\<rparr>)"
    by (rule buildKeeps_world) (simp_all add: w1_def keeps_def)
  show ?thesis
    using b0 b4
    by (simp add: buildIteration_def case_prod_beta d_def [symmetric] w1_def [symmetric]
        w2_def [symmetric] st3_def [symmetric])
qed

lemma buildKeeps_phaseReviewLoop:
  assumes "\<not> R AgentReviewerSite" and "\<not> R BuildIncorporateSite"
    and "b < nextUuid (world st)"
  shows "buildKeeps R rsid st (snd (phaseReviewLoop env b rsid k phase i st))"
  using assms
proof (induction env b rsid k phase i st rule: phaseReviewLoop.induct)
  case (1 env b rsid k phase i st)
  obtain step st' where step: "buildIteration env b rsid k phase i st = (step, st')"
    by (cases "buildIteration env b rsid k phase i st")
  have bk: "buildKeeps R rsid st st'"
    using buildKeeps_buildIteration [where R = R and st = st and b = b and rsid = rsid
        and env = env and k = k and phase = phase and i = i] "1.prems" step by simp
  show ?case
  proof (cases "i \<le> maxBuildIterations env \<and> step = ContinueLoop")
    case True
    have lt: "b < nextUuid (world st')" using bk "1.prems"(3) by (simp add: buildKeeps_def)
    have "buildKeeps R rsid st' (snd (phaseReviewLoop env b rsid k phase (i + 1) st'))"
      using "1.IH" [OF _ step [symmetric] _ "1.prems"(1,2) lt] True by simp
    with bk have "buildKeeps R rsid st (snd (phaseReviewLoop env b rsid k phase (i + 1) st'))"
      by (rule buildKeeps_trans)
    then show ?thesis
      using True step by (subst phaseReviewLoop.simps) simp
  next
    case False
    then show ?thesis
      using bk step by (subst phaseReviewLoop.simps) (auto split: BuildStep.splits)
  qed
qed

lemma buildInvariant_winv: "buildInvariant R rsid st = sessionInvariant R rsid (isFirstReviewerCheck st) (world st)"
  by (simp add: buildInvariant_def sessionInvariant_def)

lemma sessionInvariant_buildPhases:
  assumes "\<not> R AgentReviewerSite" and "\<not> R BuildIncorporateSite" and "\<not> R BuildSite"
    and "b < nextUuid w" and "sessionInvariant R rsid isFirst w"
  shows "sessionInvariant R rsid (fst (snd (buildPhases env b rsid k phases isFirst w)))
           (snd (snd (buildPhases env b rsid k phases isFirst w)))"
  using assms(4,5)
proof (induction phases arbitrary: k isFirst w)
  case Nil
  then show ?case by simp
next
  case (Cons phase phases)
  let ?w1 = "emit (RunClaude BuildSite b (number phase > 1))
      (logToFeatureHistory SrcSystem (StartingPhase (number phase) (description phase)) w)"
  let ?st0 = "\<lparr>world = logToFeatureHistory SrcClaude (BuilderCompletedPhase (number phase)) ?w1,
      isFirstReviewerCheck = isFirst, minorIssuesIteration = False\<rparr>"
  let ?res = "phaseReviewLoop env b rsid k phase 1 ?st0"
  have i1: "sessionInvariant R rsid isFirst ?w1"
    using Cons.prems assms(3) by (simp add: sessionInvariant_def agentResumes_def)
  have i0: "buildInvariant R rsid ?st0"
    using i1 by (simp add: buildInvariant_winv sessionInvariant_def)
  have lt0: "b < nextUuid (world ?st0)" using Cons.prems(1) by simp
  have bk: "buildKeeps R rsid ?st0 (snd ?res)"
    using assms(1,2) lt0 by (rule buildKeeps_phaseReviewLoop)
  have ir: "sessionInvariant R rsid (isFirstReviewerCheck (snd ?res)) (world (snd ?res))"
    using bk i0 by (simp add: buildKeeps_def buildInvariant_winv)
  have ltr: "b < nextUuid (world (snd ?res))" using bk lt0 by (simp add: buildKeeps_def)
  have rec: "sessionInvariant R rsid
       (fst (snd (buildPhases env b rsid (Suc k) phases (isFirstReviewerCheck (snd ?res))
          (world (snd ?res)))))
       (snd (snd (buildPhases env b rsid (Suc k) phases (isFirstReviewerCheck (snd ?res))
          (world (snd ?res)))))"
    using ltr ir by (rule Cons.IH)
  have fail: "sessionInvariant R rsid isFirst
       (emit (ShowError (BuildFailed (number phase) (cc_error (buildRun env k))))
          (logToFeatureHistory SrcClaude
             (BuildFailedForPhase (number phase) (cc_error (buildRun env k))) ?w1))"
    using i1 by (simp add: sessionInvariant_def agentResumes_def)
  show ?case
    using fail ir rec
    by (simp add: runClaudeCodeWithProgress_def Let_def case_prod_beta)
qed

lemma buildAll_sessions:
  assumes "\<not> R AgentReviewerSite" and "\<not> R BuildIncorporateSite" and "\<not> R BuildSite"
    and "wellFormed R w" and "agentCalls (trace w) = []"
  shows "wellFormed R (snd (buildAll env phases w))
       \<and> agentResumes (Suc (nextUuid w)) (trace (snd (buildAll env phases w)))"
proof -
  define w2 where "w2 = snd (generateSessionId (snd (generateSessionId
      (updateFeatureStatus Building SrcSystem (StartingBuild (length phases)) w))))"
  have n2: "nextUuid w2 = Suc (Suc (nextUuid w))" by (simp add: w2_def)
  have t2: "trace w2 = trace w" by (simp add: w2_def)
  have i2: "sessionInvariant R (Suc (nextUuid w)) True w2"
    using assms(4,5) by (simp add: sessionInvariant_def n2 t2 agentResumes_def w2_def)
  have lt: "nextUuid w < nextUuid w2" by (simp add: n2)
  note r = sessionInvariant_buildPhases [where R = R and b = "nextUuid w" and rsid = "Suc (nextUuid w)"
      and w = w2 and isFirst = True and env = env and k = 0 and phases = phases,
      OF assms(1-3) lt i2]
  show ?thesis
    using r
    by (simp add: buildAll_def Let_def case_prod_beta w2_def [symmetric] sessionInvariant_def
        agentResumes_def)
qed

lemma executeBuildPhase_sessions:
  assumes "\<not> R AgentReviewerSite" and "\<not> R BuildIncorporateSite" and "\<not> R BuildSite"
    and "wellFormed R w" and "agentCalls (trace w) = []"
  shows "wellFormed R (snd (executeBuildPhase env feature w))
       \<and> agentResumes (Suc (nextUuid w)) (trace (snd (executeBuildPhase env feature w)))"
proof -
  define w1 where "w1 = snd (ensureClaudeCodeInstalled env w)"
  define w2 where "w2 = snd (ensureReviewerConfigured env (reviewerProvider env) w1)"
  have e1: "wellFormed R w1 \<and> agentCalls (trace w1) = [] \<and> nextUuid w1 = nextUuid w"
    using assms(4,5) by (simp add: w1_def ensureClaudeCodeInstalled_def)
  have e2: "wellFormed R w2 \<and> agentCalls (trace w2) = [] \<and> nextUuid w2 = nextUuid w"
    using e1
    by (simp add: w2_def ensureReviewerConfigured_def ensureOpenAIConfigured_def
        ensureClaudeCodeInstalled_def)
  have b1: "wellFormed R (snd (buildAll env phases w1))
       \<and> agentResumes (Suc (nextUuid w)) (trace (snd (buildAll env phases w1)))" for phases
    using buildAll_sessions [where R = R and w = w1, OF assms(1-3)] e1 by simp
  have b2: "wellFormed R (snd (buildAll env phases w2))
       \<and> agentResumes (Suc (nextUuid w)) (trace (snd (buildAll env phases w2)))" for phases
    using buildAll_sessions [where R = R and w = w2, OF assms(1-3)] e2 by simp
  show ?thesis
    using e1 e2 b1 b2
    by (simp add: executeBuildPhase_def case_prod_beta Let_def w1_def [symmetric]
        w2_def [symmetric] agentResumes_def split: option.splits)
qed

lemma onePhasePlan_phases: "parsePlanPhasesFromContent onePhasePlan = [phaseOne]"
  by (simp add: onePhasePlan_def phaseOne_def parsePlanPhasesFromContent_def closePhase_def
      header_eval)

lemma majorThenNone_run:
  "snd (executeBuildPhase (agentEnv (Some onePhasePlan) changed majorThenNone) newFeature
          (worldAt ReadyForBuild))
   = \<lparr>statusFile = \<lparr>sf_status = CodeReview, sf_history =
        [(SrcSystem, BuildComplete 1),
         (SrcSystem, PhaseApproved 1 2),
         (SrcClaudeReviewer, CodeReviewIteration 2 Approved),
         (SrcClaude, BuilderAddressedFeedback 2),
         (SrcClaudeReviewer, CodeReviewIteration 1 MajorIssuesFound),
         (SrcClaude, BuilderCompletedPhase 1),
         (SrcSystem, StartingPhase 1 (str ''a'')),
         (SrcSystem, StartingBuild 1),
         (SrcSystem, CreatedFeature)]\<rparr>,
      nextUuid = 2,
      trace = [ShowInformation (BuildCompleteFor 1),
               RunClaude AgentReviewerSite 1 True,
               GitStagedDiff,
               RunClaude BuildIncorporateSite 0 True,
               RunClaude AgentReviewerSite 1 False,
               GitStagedDiff,
               RunClaude BuildSite 0 False]\<rparr>"
proof -
  have pp: "\<not> falsy (planPath newFeature)"
    by (simp add: newFeature_def falsy_def)
  have d: "getStagedDiff (agentEnv (Some onePhasePlan) changed majorThenNone) k i w
      = (\<lparr>diff = str ''+x'', filesChanged = [str ''+x''], hasChanges = True\<rparr>,
         emit GitStagedDiff w)" for k i w
    by (simp add: getStagedDiff_def agentEnv_fields changed_def trim_def str_def is_space_def)
  show ?thesis
    by (simp add: executeBuildPhase_def buildAll_def ensureClaudeCodeInstalled_def
        agentEnv_fields pp onePhasePlan_phases phaseOne_def phaseReviewLoop.simps
        buildIteration_def d primaryReviewStep_def claudeReviewStep_def runCodeReview_def
        afterReviews_def runClaudeCodeWithProgress_def extractIntentSummary_def
        majorThenNone_def verdict_texts hasAnyMajorIssues_def hasOnlyMinorIssues_def
        logCodeReview_def reviewStatusText_def generateSessionId_def okRun_def
        logToFeatureHistory_def updateFeatureStatus_def emit_def worldAt_def Let_def)
qed

text \<open>
  Claim C4, as stated, has every review of a loop run in a session of its own, never
  resumed. In a build in the mode architect-only, with major issues in the first review of
  the phase and none in the second, the second review resumes the session of the first.
\<close>

theorem build_reviewer_session_resumed:
  "trace (snd (executeBuildPhase (agentEnv (Some onePhasePlan) changed majorThenNone)
            newFeature (worldAt ReadyForBuild)))
     = [ShowInformation (BuildCompleteFor 1),
        RunClaude AgentReviewerSite 1 True,
        GitStagedDiff,
        RunClaude BuildIncorporateSite 0 True,
        RunClaude AgentReviewerSite 1 False,
        GitStagedDiff,
        RunClaude BuildSite 0 False]
   \<and> \<not> reviewersFresh isReviewerSite
         (trace (snd (executeBuildPhase (agentEnv (Some onePhasePlan) changed majorThenNone)
            newFeature (worldAt ReadyForBuild))))"
  unfolding majorThenNone_run by simp

text \<open>
  Claim C4, amended. In a run of the spec loop or of the plan loop every reviewer process
  is started fresh on a session id that no earlier process of the run used; so is every
  process of the primary reviewer of a build. The second reviewer of a build, started by
  \<open>runCodeReview\<close>, runs on one session id for the whole build, drawn once before the
  first phase: its first review starts that session and every later review, in any
  iteration of any phase, resumes it.
\<close>

theorem reviewer_sessions:
  assumes "trace w = []"
  shows "reviewersFresh isReviewerSite (trace (snd (generateSpecWithReviewLoop env feature w)))
       \<and> reviewersFresh isReviewerSite (trace (snd (generatePlanWithReviewLoop env feature w)))
       \<and> reviewersFresh isProviderReviewerSite (trace (snd (executeBuildPhase env feature w)))
       \<and> agentResumes (Suc (nextUuid w)) (trace (snd (executeBuildPhase env feature w)))"
proof -
  have wfw: "wellFormed R w" for R using assms by (simp add: wellFormed_def sessionsBelow_def)
  have s: "wellFormed isReviewerSite (snd (generateSpecWithReviewLoop env feature w))"
    using keeps_generateSpec [where R = isReviewerSite and w = w] wfw
    by (simp add: keeps_def)
  have p: "wellFormed isReviewerSite (snd (generatePlanWithReviewLoop env feature w))"
    using keeps_generatePlan [where R = isReviewerSite and w = w] wfw
    by (simp add: keeps_def)
  have b: "wellFormed isProviderReviewerSite (snd (executeBuildPhase env feature w))
       \<and> agentResumes (Suc (nextUuid w)) (trace (snd (executeBuildPhase env feature w)))"
    using executeBuildPhase_sessions [where R = isProviderReviewerSite and w = w] wfw assms
    by simp
  show ?thesis using s p b by (simp add: wellFormed_def)
qed

theorem reviewer_sessions_witness:
  "trace (worldAt ReadyForBuild) = []
   \<and> reviewersFresh isProviderReviewerSite
        (trace (snd (executeBuildPhase (agentEnv (Some onePhasePlan) changed majorThenNone)
            newFeature (worldAt ReadyForBuild))))
   \<and> agentResumes 1
        (trace (snd (executeBuildPhase (agentEnv (Some onePhasePlan) changed majorThenNone)
            newFeature (worldAt ReadyForBuild))))
   \<and> agentCalls
        (trace (snd (executeBuildPhase (agentEnv (Some onePhasePlan) changed majorThenNone)
            newFeature (worldAt ReadyForBuild))))
       = [(1, True), (1, False)]"
proof -
  have t: "trace (worldAt ReadyForBuild) = []" by (simp add: worldAt_def)
  have n: "nextUuid (worldAt ReadyForBuild) = 0" by (simp add: worldAt_def)
  have c: "agentCalls
        (trace (snd (executeBuildPhase (agentEnv (Some onePhasePlan) changed majorThenNone)
            newFeature (worldAt ReadyForBuild))))
       = [(1, True), (1, False)]"
    unfolding majorThenNone_run by simp
  from reviewer_sessions [OF t, of "agentEnv (Some onePhasePlan) changed majorThenNone"
      newFeature] t n c
  show ?thesis by simp
qed

end
